theory Spec2Isabelle
  imports Main "HOL-Library.AList"
begin

section \<open>Failures\<close>

text \<open>
  A validation problem as \<open>processArguments\<close> of the build engine reports it, and
  the ways a run can end other than by returning: a thrown \<open>TypeError\<close>, or one of
  the diagnostics after which the process exits with status 2.
\<close>

record problem =
  ptype :: string
  ppath :: string
  argument :: string
  pvalue :: "string option"
  pindex :: "nat option"
  expected :: "string option"

datatype failure =
    TypeError
  | LoadFailed string
  | InvalidConfiguration string
  | ConfigNameNotFound "string list"
  | RecursiveConfiguration
  | MergeNeedsTwo
  | ArgumentProblems "problem list"
  | InstallFailed string

section \<open>Inherited properties\<close>

text \<open>
  The properties a plain object \<open>{}\<close> inherits from \<open>Object.prototype\<close>.  Each of
  them reads as a function, and \<open>__proto__\<close> as the prototype object itself, so all
  of them are truthy; assigning under \<open>__proto__\<close> calls the inherited setter and
  creates no property of the object.
\<close>

definition objectPrototype :: "string list" where
  "objectPrototype =
     [''constructor'', ''__defineGetter__'', ''__defineSetter__'', ''hasOwnProperty'',
      ''__lookupGetter__'', ''__lookupSetter__'', ''isPrototypeOf'', ''propertyIsEnumerable'',
      ''toString'', ''valueOf'', ''__proto__'', ''toLocaleString'']"

section \<open>The \<open>--env\<close> argument parser\<close>

text \<open>
  The \<open>env\<close> flag of \<open>getBuiltInOptions\<close> carries its own parser
  \<open>(value, previous = {}) => ...\<close>.  It mutates and returns \<open>previous\<close>, an object
  whose bindings are strings, \<open>true\<close>, \<open>undefined\<close> or nested objects.  Objects are
  association lists in insertion order.  Only own properties are modelled: the
  model follows the code for keys that name no inherited property.
\<close>

datatype envv = EStr string | ETrue | EUndefined | EObj "(string \<times> envv) list"

text \<open>
  The dot of a JavaScript regular expression matches every character but a line
  terminator; over 8-bit characters these are line feed and carriage return.
\<close>

definition lineTerminator :: "char \<Rightarrow> bool" where
  "lineTerminator c = (c = CHR 0x0A \<or> c = CHR 0x0D)"

text \<open>
  \<open>value.split(/[=](.+)/, 2)\<close>: the text before the first \<open>=\<close> that is followed by
  at least one character matched by the dot, and the captured run after it; a single
  piece (the second component \<open>None\<close>, JavaScript's \<open>undefined\<close>) when there is no
  such \<open>=\<close>.
\<close>

fun splitValue :: "string \<Rightarrow> string \<times> string option" where
  "splitValue [] = ([], None)"
| "splitValue (c # cs) =
     (if c = CHR ''='' \<and> (case cs of [] \<Rightarrow> False | d # _ \<Rightarrow> \<not> lineTerminator d)
      then ([], Some (takeWhile (\<lambda>d. \<not> lineTerminator d) cs))
      else (case splitValue cs of (k, v) \<Rightarrow> (c # k, v)))"

text \<open>\<open>allKeys.split(/\.(?!$)/)\<close>: split at every dot that is not the last character.\<close>

fun splitKeys :: "string \<Rightarrow> string list" where
  "splitKeys [] = [[]]"
| "splitKeys (c # cs) =
     (if c = CHR ''.'' \<and> cs \<noteq> [] then [] # splitKeys cs
      else (case splitKeys cs of [] \<Rightarrow> [[c]] | k # ks \<Rightarrow> (c # k) # ks))"

text \<open>
  Property read and write on the value \<open>prevRef\<close> refers to.  Reading a property of
  \<open>undefined\<close> throws; a primitive has no own property under these keys.  The module
  is strict code, so writing a property of a primitive throws as well.
\<close>

fun getProp :: "envv \<Rightarrow> string \<Rightarrow> failure + envv" where
  "getProp (EObj m) k = Inr (case map_of m k of None \<Rightarrow> EUndefined | Some v \<Rightarrow> v)"
| "getProp EUndefined k = Inl TypeError"
| "getProp _ k = Inr EUndefined"

fun setProp :: "envv \<Rightarrow> string \<Rightarrow> envv \<Rightarrow> failure + envv" where
  "setProp (EObj m) k v = Inr (EObj (AList.update k v m))"
| "setProp _ k v = Inl TypeError"

fun falsy :: "envv \<Rightarrow> bool" where
  "falsy EUndefined = True"
| "falsy (EStr s) = (s = [])"
| "falsy _ = False"

fun isString :: "envv \<Rightarrow> bool" where
  "isString (EStr s) = True"
| "isString _ = False"

definition endsWithEq :: "string \<Rightarrow> bool" where
  "endsWithEq k = (k \<noteq> [] \<and> last k = CHR ''='')"

definition bind :: "failure + 'a \<Rightarrow> ('a \<Rightarrow> failure + 'b) \<Rightarrow> failure + 'b" where
  "bind r f = (case r of Inl e \<Rightarrow> Inl e | Inr x \<Rightarrow> f x)"

text \<open>
  The loop over \<open>splitKeys.entries()\<close>.  The first argument is the rest of the keys,
  so \<open>index === splitKeys.length - 1\<close> is \<open>ks = []\<close>; the last argument is the object
  \<open>prevRef\<close> refers to, and the result is that object after the remaining
  iterations.  Descending into \<open>prevRef[someKey]\<close> and mutating it there is writing
  the mutated child back under \<open>someKey\<close>.
\<close>

fun envLoop :: "string list \<Rightarrow> string option \<Rightarrow> envv \<Rightarrow> failure + envv" where
  "envLoop [] val prevRef = Inr prevRef"
| "envLoop (someKey # ks) val prevRef =
     (if endsWithEq someKey then
        bind (setProp prevRef (butlast someKey) EUndefined) (envLoop ks val)
      else
        bind (getProp prevRef someKey) (\<lambda>v0.
        bind (if falsy v0 then setProp prevRef someKey (EObj []) else Inr prevRef) (\<lambda>r1.
        bind (getProp r1 someKey) (\<lambda>v1.
        bind (if isString v1 then setProp r1 someKey (EObj []) else Inr r1) (\<lambda>r2.
        bind (if ks = []
              then setProp r2 someKey (case val of Some s \<Rightarrow> EStr s | None \<Rightarrow> ETrue)
              else Inr r2) (\<lambda>r3.
        bind (getProp r3 someKey) (\<lambda>child.
        if ks = [] then Inr r3
        else bind (envLoop ks val child) (\<lambda>child'.
             case child of EObj _ \<Rightarrow> setProp r3 someKey child' | _ \<Rightarrow> Inr r3))))))))"

definition envParser :: "string \<Rightarrow> (string \<times> envv) list \<Rightarrow> failure + envv" where
  "envParser value previous =
     (case splitValue value of (allKeys, val) \<Rightarrow> envLoop (splitKeys allKeys) val (EObj previous))"

text \<open>
  The option's stored value is handed back to the parser as \<open>previous\<close> at each
  further occurrence of \<open>--env\<close>; the first occurrence starts from the given object.
\<close>

fun envParserAll :: "string list \<Rightarrow> (string \<times> envv) list \<Rightarrow> failure + envv" where
  "envParserAll [] previous = Inr (EObj previous)"
| "envParserAll (v # vs) previous =
     bind (envParser v previous)
       (\<lambda>r. case r of EObj m \<Rightarrow> envParserAll vs m | _ \<Rightarrow> Inl TypeError)"

text \<open>Reading a dotted path of own properties, and the keys an \<open>--env\<close> value names.\<close>

fun envLookup :: "string list \<Rightarrow> envv \<Rightarrow> envv option" where
  "envLookup [] v = Some v"
| "envLookup (k # ks) (EObj m) = (case map_of m k of None \<Rightarrow> None | Some v \<Rightarrow> envLookup ks v)"
| "envLookup (k # ks) _ = None"

definition strippedPath :: "string \<Rightarrow> string list" where
  "strippedPath s = (let segs = splitKeys s in butlast segs @ [butlast (last segs)])"

text \<open>
  A dotted path is blocked in an object when, walking it, a key is bound to \<open>true\<close>:
  the loop keeps that binding and descends into it.
\<close>

fun blocked :: "string list \<Rightarrow> envv \<Rightarrow> bool" where
  "blocked [] node = False"
| "blocked (k # ks) (EObj m) =
     (case map_of m k of
        Some ETrue \<Rightarrow> True
      | Some (EObj m') \<Rightarrow> blocked ks (EObj m')
      | _ \<Rightarrow> False)"
| "blocked (k # ks) _ = True"

section \<open>The option compiler \<open>makeOption\<close>\<close>

text \<open>
  JavaScript values: what an option can hold and what a configuration is made of.
  An object is an association list in insertion order.  Numbers are kept abstract (type \<open>'n\<close>):
  the conversion \<open>Number(value)\<close> and the tests on its result are primitives of the
  language, passed to the model as a record.
\<close>

datatype 'n jsv =
    JUndefined
  | JNull
  | JBool bool
  | JNum 'n
  | JStr string
  | JArr "'n jsv list"
  | JObj "(string \<times> 'n jsv) list"

record 'n numops =
  toNumber :: "string \<Rightarrow> 'n"
  isNaN :: "'n \<Rightarrow> bool"
  isZero :: "'n \<Rightarrow> bool"

fun truthy :: "'n numops \<Rightarrow> 'n jsv \<Rightarrow> bool" where
  "truthy ops JUndefined = False"
| "truthy ops JNull = False"
| "truthy ops (JBool b) = b"
| "truthy ops (JNum n) = (\<not> isZero ops n \<and> \<not> isNaN ops n)"
| "truthy ops (JStr s) = (s \<noteq> [])"
| "truthy ops (JArr xs) = True"
| "truthy ops (JObj m) = True"

text \<open>\<open>[...prev]\<close>: an array gives its elements, a string its characters, anything else throws.\<close>

fun spread :: "'n jsv \<Rightarrow> failure + 'n jsv list" where
  "spread (JArr xs) = Inr xs"
| "spread (JStr s) = Inr (map (\<lambda>c. JStr [c]) s)"
| "spread _ = Inl TypeError"

text \<open>
  The members of \<open>mainOption.type\<close>: the constructors \<open>Boolean\<close>, \<open>Number\<close> and
  \<open>String\<close>, or a parser function of the flag's own (named here).  The set keeps
  insertion order and no duplicates.
\<close>

datatype kind = KBoolean | KNumber | KString | KCustom string

definition setAdd :: "'a \<Rightarrow> 'a list \<Rightarrow> 'a list" where
  "setAdd x xs = (if x \<in> set xs then xs else xs @ [x])"

text \<open>
  A value of an \<open>enum\<close> config by its \<open>typeof\<close>, and the config types the
  \<open>switch\<close> tells apart (any other type adds nothing).
\<close>

datatype enumValue = EnumString | EnumNumber | EnumBoolean bool | EnumOther

datatype argType =
    TReset | TBoolean | TNumber | TString | TPath | TRegExp | TEnum "enumValue list" | TOther

record argConfig =
  ctype :: argType
  cNegatedDescription :: "string option"

datatype helpLevel = Minimum | Verbose

record 'n builtInOption =
  name :: string
  optAlias :: "string option"
  configs :: "argConfig list option"
  otype :: "kind list option"
  multiple :: bool
  valueName :: "string option"
  description :: "string option"
  negatedDescription :: "string option"
  negative :: bool
  defaultValue :: "'n jsv"
  helpLevel :: "helpLevel option"
  group :: "string option"

record 'n mainOption =
  mFlags :: string
  mValueName :: string
  mDescription :: string
  mType :: "kind list"
  mMultiple :: bool
  mDefaultValue :: "'n jsv"

record negativeOption =
  nFlags :: string
  nDescription :: string

text \<open>
  What \<open>command.addOption\<close> receives: the flags, the description, which parser was
  attached, the default, whether it is hidden from help, and the help level.
\<close>

datatype parserKind = NoParser | NumberParser | StringParser | MultiParser | CustomParser kind

record 'n cliOption =
  oFlags :: string
  oDescription :: string
  oParser :: parserKind
  oDefault :: "'n jsv"
  oHidden :: bool
  oHelpLevel :: "helpLevel option"

definition flagsWithAlias :: "string list" where
  "flagsWithAlias = [''devtool'', ''output-path'', ''target'', ''watch'', ''extends'']"

definition strTruthy :: "string option \<Rightarrow> bool" where
  "strTruthy s = (case s of None \<Rightarrow> False | Some t \<Rightarrow> t \<noteq> [])"

definition orElse :: "string option \<Rightarrow> string \<Rightarrow> string" where
  "orElse s d = (case s of None \<Rightarrow> d | Some t \<Rightarrow> if t = [] then d else t)"

text \<open>The inner loop over \<open>config.values\<close>, on the pair \<open>(hasFalseEnum, mainOptionType)\<close>.\<close>

fun enumStep :: "bool \<times> kind list \<Rightarrow> enumValue \<Rightarrow> bool \<times> kind list" where
  "enumStep (hasFalseEnum, ty) EnumString = (hasFalseEnum, setAdd KString ty)"
| "enumStep (hasFalseEnum, ty) EnumNumber = (hasFalseEnum, setAdd KNumber ty)"
| "enumStep (hasFalseEnum, ty) (EnumBoolean b) =
     (if \<not> hasFalseEnum \<and> b = False then (True, ty) else (hasFalseEnum, setAdd KBoolean ty))"
| "enumStep (hasFalseEnum, ty) EnumOther = (hasFalseEnum, ty)"

text \<open>
  The loop over \<open>option.configs\<close>, on
  \<open>(needNegativeOption, negatedDescription, mainOptionType)\<close>.
\<close>

fun configStep ::
  "bool \<times> string option \<times> kind list \<Rightarrow> argConfig \<Rightarrow> bool \<times> string option \<times> kind list" where
  "configStep (need, nd, ty) c =
     (case ctype c of
        TReset \<Rightarrow> (need, nd, setAdd KBoolean ty)
      | TBoolean \<Rightarrow>
          (if \<not> need then (True, cNegatedDescription c, setAdd KBoolean ty)
           else (need, nd, setAdd KBoolean ty))
      | TNumber \<Rightarrow> (need, nd, setAdd KNumber ty)
      | TString \<Rightarrow> (need, nd, setAdd KString ty)
      | TPath \<Rightarrow> (need, nd, setAdd KString ty)
      | TRegExp \<Rightarrow> (need, nd, setAdd KString ty)
      | TEnum vs \<Rightarrow>
          (case foldl enumStep (False, ty) vs of
             (hasFalseEnum, ty') \<Rightarrow>
               if \<not> need then (hasFalseEnum, cNegatedDescription c, ty') else (need, nd, ty'))
      | TOther \<Rightarrow> (need, nd, ty))"

definition withAlias :: "'n builtInOption \<Rightarrow> 'n builtInOption" where
  "withAlias option =
     (if name option \<in> set flagsWithAlias then option\<lparr>optAlias := Some (take 1 (name option))\<rparr>
      else option)"

definition baseFlags :: "'n builtInOption \<Rightarrow> string" where
  "baseFlags option =
     (if strTruthy (optAlias option) then ''-'' @ the (optAlias option) @ '', --'' @ name option
      else ''--'' @ name option)"

definition negativeFor :: "'n builtInOption \<Rightarrow> string option \<Rightarrow> negativeOption" where
  "negativeFor option nd =
     \<lparr> nFlags = ''--no-'' @ name option,
       nDescription =
         orElse nd (orElse (negatedDescription option)
           (''Negative '' @ [CHR 0x27] @ name option @ [CHR 0x27] @ '' option.'')) \<rparr>"

text \<open>The first half of \<open>makeOption\<close>: \<open>mainOption\<close> and \<open>negativeOption\<close> before the flags get their value placeholder.\<close>

definition compileMain :: "'n builtInOption \<Rightarrow> 'n mainOption \<times> negativeOption option" where
  "compileMain option =
     (case configs option of
        Some cs \<Rightarrow>
          (case foldl configStep (False, None, []) cs of
             (need, nd, ty) \<Rightarrow>
               (\<lparr> mFlags = baseFlags option,
                  mValueName = orElse (valueName option) ''value'',
                  mDescription = orElse (description option) [],
                  mType = ty,
                  mMultiple = multiple option,
                  mDefaultValue = defaultValue option \<rparr>,
                if need then Some (negativeFor option nd) else None))
      | None \<Rightarrow>
          (\<lparr> mFlags = baseFlags option,
             mValueName = orElse (valueName option) ''value'',
             mDescription = orElse (description option) [],
             mType = (case otype option of Some ks \<Rightarrow> foldl (\<lambda>acc k. setAdd k acc) [] ks
                      | None \<Rightarrow> [KBoolean]),
             mMultiple = multiple option,
             mDefaultValue = defaultValue option \<rparr>,
           if negative option then Some (negativeFor option None) else None))"

text \<open>The placeholder appended to the flags, by the size and members of the type set.\<close>

definition placeholder :: "'n mainOption \<Rightarrow> string" where
  "placeholder m =
     (if length (mType m) > 1 \<and> KBoolean \<in> set (mType m) then
        '' ['' @ (if mValueName m = [] then ''value'' else mValueName m)
          @ (if mMultiple m then ''...'' else []) @ '']''
      else if length (mType m) > 0 \<and> KBoolean \<notin> set (mType m) then
        '' <'' @ (if mValueName m = [] then ''value'' else mValueName m)
          @ (if mMultiple m then ''...'' else []) @ ''>''
      else [])"

definition parserFor :: "kind list \<Rightarrow> parserKind" where
  "parserFor ty =
     (if length ty = 1 then
        (if KNumber \<in> set ty then NumberParser
         else if KString \<in> set ty then StringParser
         else if KBoolean \<in> set ty then NoParser
         else CustomParser (hd ty))
      else if length ty > 1 then MultiParser
      else NoParser)"

text \<open>
  \<open>makeOption\<close>: the command's option table is the list the options are appended
  to.  The main option is added unless the type set is empty and there is no negative
  option; it is hidden exactly in the stub case.  The negative option follows.
\<close>

definition makeOption :: "'n cliOption list \<Rightarrow> 'n builtInOption \<Rightarrow> 'n cliOption list" where
  "makeOption command option0 =
     (let option = withAlias option0 in
      case compileMain option of
        (m0, neg) \<Rightarrow>
          let m = m0\<lparr>mFlags := mFlags m0 @ placeholder m0\<rparr>;
              mainPart =
                (if length (mType m) \<ge> 1 then
                   [\<lparr> oFlags = mFlags m, oDescription = mDescription m,
                      oParser = parserFor (mType m), oDefault = mDefaultValue m,
                      oHidden = False, oHelpLevel = helpLevel option \<rparr>]
                 else if neg \<noteq> None then
                   [\<lparr> oFlags = mFlags m, oDescription = mDescription m,
                      oParser = NoParser, oDefault = JUndefined,
                      oHidden = True, oHelpLevel = helpLevel option \<rparr>]
                 else []);
              negPart =
                (case neg of
                   None \<Rightarrow> []
                 | Some n \<Rightarrow>
                     [\<lparr> oFlags = nFlags n, oDescription = nDescription n,
                        oParser = NoParser, oDefault = JUndefined,
                        oHidden = False, oHelpLevel = helpLevel option \<rparr>])
          in command @ mainPart @ negPart)"

subsection \<open>The parser closures attached by \<open>makeOption\<close>\<close>

text \<open>
  Each closure is \<open>(value, prev = []) => ...\<close> over the variable \<open>skipDefault\<close> of
  its \<open>makeOption\<close> call.  The model passes \<open>skipDefault\<close> in and returns it with
  the parsed value.
\<close>

definition defaultPrev :: "'n jsv \<Rightarrow> 'n jsv" where
  "defaultPrev prev = (if prev = JUndefined then JArr [] else prev)"

definition dropDefault :: "'n numops \<Rightarrow> 'n mainOption \<Rightarrow> 'n jsv \<times> bool \<Rightarrow> 'n jsv \<times> bool" where
  "dropDefault ops m ps =
     (case ps of (prev, skipDefault) \<Rightarrow>
        if truthy ops (mDefaultValue m) \<and> mMultiple m \<and> skipDefault then (JArr [], False)
        else (prev, skipDefault))"

definition accumulate :: "'n mainOption \<Rightarrow> 'n jsv \<times> bool \<Rightarrow> 'n jsv \<Rightarrow> failure + 'n jsv \<times> bool" where
  "accumulate m ps x =
     (case ps of (prev, skipDefault) \<Rightarrow>
        if mMultiple m then bind (spread prev) (\<lambda>xs. Inr (JArr (xs @ [x]), skipDefault))
        else Inr (x, skipDefault))"

definition numberArgParser ::
  "'n numops \<Rightarrow> 'n mainOption \<Rightarrow> string \<Rightarrow> 'n jsv \<times> bool \<Rightarrow> failure + 'n jsv \<times> bool" where
  "numberArgParser ops m value ps =
     accumulate m (dropDefault ops m (defaultPrev (fst ps), snd ps)) (JNum (toNumber ops value))"

definition stringArgParser ::
  "'n numops \<Rightarrow> 'n mainOption \<Rightarrow> string \<Rightarrow> 'n jsv \<times> bool \<Rightarrow> failure + 'n jsv \<times> bool" where
  "stringArgParser ops m value ps =
     accumulate m (dropDefault ops m (defaultPrev (fst ps), snd ps)) (JStr value)"

definition multiArgParser ::
  "'n numops \<Rightarrow> 'n mainOption \<Rightarrow> string \<Rightarrow> 'n jsv \<times> bool \<Rightarrow> failure + 'n jsv \<times> bool" where
  "multiArgParser ops m value ps =
     (let ps' = dropDefault ops m (defaultPrev (fst ps), snd ps) in
      if KNumber \<in> set (mType m) \<and> \<not> isNaN ops (toNumber ops value)
      then accumulate m ps' (JNum (toNumber ops value))
      else if KString \<in> set (mType m) then accumulate m ps' (JStr value)
      else Inr (JStr value, snd ps'))"

text \<open>
  Every occurrence of the flag on the command line calls the parser with the raw
  value and the option's stored value, and stores what it returns; the stored value
  starts as the default.
\<close>

fun parseAll ::
  "(string \<Rightarrow> 'n jsv \<times> bool \<Rightarrow> failure + 'n jsv \<times> bool) \<Rightarrow> string list \<Rightarrow> 'n jsv \<times> bool
     \<Rightarrow> failure + 'n jsv \<times> bool" where
  "parseAll p [] ps = Inr ps"
| "parseAll p (v # vs) ps = bind (p v ps) (parseAll p vs)"

definition parseOccurrences ::
  "(string \<Rightarrow> 'n jsv \<times> bool \<Rightarrow> failure + 'n jsv \<times> bool) \<Rightarrow> 'n mainOption
     \<Rightarrow> string list \<Rightarrow> failure + 'n jsv" where
  "parseOccurrences p m vs = bind (parseAll p vs (mDefaultValue m, True)) (\<lambda>r. Inr (fst r))"

text \<open>The value one raw string stands for under number-then-string coercion.\<close>

definition coerce :: "'n numops \<Rightarrow> string \<Rightarrow> 'n jsv" where
  "coerce ops value =
     (if \<not> isNaN ops (toNumber ops value) then JNum (toNumber ops value) else JStr value)"

subsection \<open>Reading a compiled option\<close>

definition kindsOf :: "'n builtInOption \<Rightarrow> kind list" where
  "kindsOf option = mType (fst (compileMain (withAlias option)))"

definition valuePart :: "'n builtInOption \<Rightarrow> string" where
  "valuePart option =
     orElse (valueName option) ''value'' @ (if multiple option then ''...'' else [])"

text \<open>
  The condition under which the loop over the configs leaves \<open>needNegativeOption\<close>
  set, stated on the configs: one of type \<open>boolean\<close>, or an \<open>enum\<close> with the
  literal \<open>false\<close> among its values; without configs, the option's own \<open>negative\<close>.
\<close>

definition asksNegation :: "argConfig \<Rightarrow> bool" where
  "asksNegation c =
     (case ctype c of TBoolean \<Rightarrow> True | TEnum vs \<Rightarrow> EnumBoolean False \<in> set vs | _ \<Rightarrow> False)"

definition wantsNegative :: "'n builtInOption \<Rightarrow> bool" where
  "wantsNegative option =
     (case configs option of Some cs \<Rightarrow> list_ex asksNegation cs | None \<Rightarrow> negative option)"

text \<open>The \<open>progress\<close> flag as \<open>getBuiltInOptions\<close> declares it.\<close>

definition progressFlag :: "'n builtInOption" where
  "progressFlag =
     \<lparr> name = ''progress'', optAlias = None,
       configs = Some [\<lparr> ctype = TString, cNegatedDescription = None \<rparr>,
                       \<lparr> ctype = TEnum [EnumBoolean True], cNegatedDescription = None \<rparr>],
       otype = None, multiple = False, valueName = None,
       description = Some ''Print compilation progress during build.'',
       negatedDescription = None, negative = False, defaultValue = JUndefined,
       helpLevel = Some Minimum, group = None \<rparr>"

text \<open>The \<open>merge\<close> flag as \<open>getBuiltInOptions\<close> declares it.\<close>

definition mergeFlag :: "'n builtInOption" where
  "mergeFlag =
     \<lparr> name = ''merge'', optAlias = Some ''m'',
       configs = Some [\<lparr> ctype = TEnum [EnumBoolean True], cNegatedDescription = None \<rparr>],
       otype = None, multiple = False, valueName = None,
       description = Some (''Merge two or more configurations using '' @ [CHR 0x27]
                           @ ''webpack-merge'' @ [CHR 0x27] @ ''.''),
       negatedDescription = None, negative = False, defaultValue = JUndefined,
       helpLevel = Some Minimum, group = None \<rparr>"

text \<open>The \<open>mainOption\<close> the closures of \<open>makeOption\<close> read, for a given flag.\<close>

definition mainOf :: "'n builtInOption \<Rightarrow> 'n mainOption" where
  "mainOf option =
     (let m0 = fst (compileMain (withAlias option)) in m0\<lparr>mFlags := mFlags m0 @ placeholder m0\<rparr>)"

text \<open>
  The closure \<open>makeOption\<close> attaches, by the branch taken on the type set; a switch
  has none and a flag with a parser of its own uses that one.
\<close>

definition attachedParser ::
  "'n numops \<Rightarrow> 'n mainOption \<Rightarrow> (string \<Rightarrow> 'n jsv \<times> bool \<Rightarrow> failure + 'n jsv \<times> bool) option" where
  "attachedParser ops m =
     (case parserFor (mType m) of
        NumberParser \<Rightarrow> Some (numberArgParser ops m)
      | StringParser \<Rightarrow> Some (stringArgParser ops m)
      | MultiParser \<Rightarrow> Some (multiArgParser ops m)
      | _ \<Rightarrow> None)"

text \<open>The element one raw value contributes, by the parser attached.\<close>

definition parsedValue :: "'n numops \<Rightarrow> kind list \<Rightarrow> string \<Rightarrow> 'n jsv" where
  "parsedValue ops ty value =
     (if parserFor ty = NumberParser then JNum (toNumber ops value)
      else if parserFor ty = MultiParser \<and> KNumber \<in> set ty \<and> \<not> isNaN ops (toNumber ops value)
      then JNum (toNumber ops value)
      else JStr value)"

definition elems :: "'n jsv \<Rightarrow> 'n jsv list" where
  "elems prev = (case prev of JArr xs \<Rightarrow> xs | _ \<Rightarrow> [])"

text \<open>
  For evaluating examples, the number primitives on unsigned decimal literals:
  \<open>None\<close> stands for \<open>NaN\<close>; the empty string converts to zero as in JavaScript.
\<close>

definition isDigit :: "char \<Rightarrow> bool" where
  "isDigit c = (c \<in> set ''0123456789'')"

definition decimal :: "string \<Rightarrow> nat option" where
  "decimal s =
     (if list_all isDigit s
      then Some (foldl (\<lambda>acc c. 10 * acc + (of_char c - 48)) 0 s)
      else None)"

definition decimalOps :: "nat option numops" where
  "decimalOps = \<lparr> toNumber = decimal, isNaN = (\<lambda>n. n = None), isZero = (\<lambda>n. n = Some 0) \<rparr>"

text \<open>A repeatable flag of kinds boolean and number with a default, and one of kinds number and string.\<close>

definition booleanNumberFlag :: "nat option builtInOption" where
  "booleanNumberFlag =
     \<lparr> name = ''limit'', optAlias = None,
       configs = Some [\<lparr> ctype = TBoolean, cNegatedDescription = None \<rparr>,
                       \<lparr> ctype = TNumber, cNegatedDescription = None \<rparr>],
       otype = None, multiple = True, valueName = None, description = None,
       negatedDescription = None, negative = False,
       defaultValue = JArr [JNum (Some 9)], helpLevel = None, group = None \<rparr>"

definition numberStringFlag :: "nat option builtInOption" where
  "numberStringFlag =
     \<lparr> name = ''port'', optAlias = None,
       configs = Some [\<lparr> ctype = TNumber, cNegatedDescription = None \<rparr>,
                       \<lparr> ctype = TString, cNegatedDescription = None \<rparr>],
       otype = None, multiple = True, valueName = None, description = None,
       negatedDescription = None, negative = False,
       defaultValue = JArr [JNum (Some 9)], helpLevel = None, group = None \<rparr>"

text \<open>
  A repeatable flag of kinds boolean, number and string without a default, and one of
  kinds number and string whose default is \<open>0\<close>.
\<close>

definition anyValueFlag :: "nat option builtInOption" where
  "anyValueFlag =
     \<lparr> name = ''open'', optAlias = None,
       configs = Some [\<lparr> ctype = TBoolean, cNegatedDescription = None \<rparr>,
                       \<lparr> ctype = TNumber, cNegatedDescription = None \<rparr>,
                       \<lparr> ctype = TString, cNegatedDescription = None \<rparr>],
       otype = None, multiple = True, valueName = None, description = None,
       negatedDescription = None, negative = False,
       defaultValue = JUndefined, helpLevel = None, group = None \<rparr>"

definition zeroDefaultFlag :: "nat option builtInOption" where
  "zeroDefaultFlag =
     \<lparr> name = ''port'', optAlias = None,
       configs = Some [\<lparr> ctype = TNumber, cNegatedDescription = None \<rparr>,
                       \<lparr> ctype = TString, cNegatedDescription = None \<rparr>],
       otype = None, multiple = True, valueName = None, description = None,
       negatedDescription = None, negative = False,
       defaultValue = JNum (Some 0), helpLevel = None, group = None \<rparr>"

section \<open>The configuration loader \<open>loadConfig\<close>\<close>

subsection \<open>Objects, the path ledger and the merge\<close>

text \<open>
  The path ledger \<open>config.path\<close> is a \<open>WeakMap\<close>: it is keyed by the identity of an
  object, not by its value.  Every object and array the loader handles therefore
  carries an identity.  \<open>FileObject\<close> is an object or array a module exports:
  \<open>require\<close> caches modules, so every load of the file yields this very object.
  \<open>CallResult\<close> is an object made by an exported configuration function, which is
  called again at every load and makes its object anew.  \<open>Allocated\<close> is an object
  made by \<open>loadConfig\<close> itself (array literals, merge results, the initial \<open>{}\<close>),
  and \<open>OptionsObject\<close> is the \<open>options\<close> argument.
\<close>

datatype oid = FileObject nat | CallResult nat | Allocated nat | OptionsObject

record 'n config =
  ident :: oid
  props :: "(string \<times> 'n jsv) list"

text \<open>What \<open>loadConfigByPath\<close> returns as \<open>options\<close>: one configuration object or an array of them.\<close>

datatype 'n loaded = Single "'n config" | Many oid "'n config list"

type_synonym ledger = "oid \<Rightarrow> string list option"

text \<open>
  Modelled from the spec: the deep merge is the package \<open>webpack-merge\<close>, which is
  not part of the sources.  Following section 4.4b, plain mapping fields merge
  key by key recursively, ordered sequences concatenate in input order, and any other
  field is overwritten by the later operand.
\<close>

fun mergeValue :: "'n jsv \<Rightarrow> 'n jsv \<Rightarrow> 'n jsv"
  and mergeFields :: "(string \<times> 'n jsv) list \<Rightarrow> (string \<times> 'n jsv) list \<Rightarrow> (string \<times> 'n jsv) list" where
  "mergeValue (JArr x) (JArr y) = JArr (x @ y)"
| "mergeValue (JObj x) (JObj y) = JObj (mergeFields x y @ filter (\<lambda>kv. map_of x (fst kv) = None) y)"
| "mergeValue a b = b"
| "mergeFields [] y = []"
| "mergeFields (kv # x) y =
     (fst kv, case map_of y (fst kv) of None \<Rightarrow> snd kv | Some w \<Rightarrow> mergeValue (snd kv) w)
       # mergeFields x y"

definition mergeObjects :: "(string \<times> 'n jsv) list \<Rightarrow> (string \<times> 'n jsv) list \<Rightarrow> (string \<times> 'n jsv) list" where
  "mergeObjects x y = mergeFields x y @ filter (\<lambda>kv. map_of x (fst kv) = None) y"

text \<open>
  \<open>merge(first, ...rest)\<close> with at least two arguments: the operands are merged from
  left to right into an object of its own.
\<close>

definition merge :: "nat \<Rightarrow> 'n config \<Rightarrow> 'n config list \<Rightarrow> 'n config" where
  "merge fresh first rest =
     \<lparr> ident = Allocated fresh, props = foldl mergeObjects (props first) (map props rest) \<rparr>"

subsection \<open>The world the loader runs in\<close>

text \<open>
  \<open>path.resolve\<close>, the outcome of \<open>loadConfigByPath\<close> at each resolved path (a
  failure where it logs and exits), and the first existing default configuration file
  are given by the file system; the number primitives come with the language.
\<close>

record 'n world =
  resolve :: "string \<Rightarrow> string"
  loadConfigByPath :: "string \<Rightarrow> failure + 'n loaded"
  foundDefaultConfigFile :: "string option"
  numOps :: "'n numops"

text \<open>The part of the \<open>options\<close> argument that \<open>loadConfig\<close> reads.\<close>

record cliOptions =
  optConfig :: "string list"
  optConfigName :: "string list option"
  optExtends :: "string list"
  optMerge :: bool

text \<open>\<open>config.options\<close>, \<open>config.path\<close> and the allocation counter.\<close>

record 'n webpackCLIConfig =
  options :: "'n loaded"
  path :: ledger
  fresh :: nat

text \<open>\<open>Promise.all\<close> over \<open>loadConfigByPath(path.resolve(p))\<close>: every load has to succeed.\<close>

fun loadAll :: "'n world \<Rightarrow> string list \<Rightarrow> failure + ('n loaded \<times> string) list" where
  "loadAll w [] = Inr []"
| "loadAll w (p # ps) =
     bind (loadConfigByPath w (resolve w p)) (\<lambda>l.
     bind (loadAll w ps) (\<lambda>ls. Inr ((l, resolve w p) # ls)))"

definition itemsOf :: "'n loaded \<Rightarrow> 'n config list" where
  "itemsOf l = (case l of Single c \<Rightarrow> [c] | Many a cs \<Rightarrow> cs)"

definition keyOf :: "'n loaded \<Rightarrow> oid" where
  "keyOf l = (case l of Single c \<Rightarrow> ident c | Many a cs \<Rightarrow> a)"

subsection \<open>Explicit paths and the default search\<close>

text \<open>
  The loop over \<open>loadedConfigs\<close> when more than one path was given.  For an array
  export every item is pushed, and the ledger is written under the key \<open>options\<close>.
\<close>

fun flatten :: "('n loaded \<times> string) list \<Rightarrow> 'n config list \<times> ledger \<Rightarrow> 'n config list \<times> ledger" where
  "flatten [] acc = acc"
| "flatten ((Many a items, p) # rest) (out, led) =
     flatten rest (out @ items, if items = [] then led else led(OptionsObject \<mapsto> [p]))"
| "flatten ((Single c, p) # rest) (out, led) =
     flatten rest (out @ [c], led(ident c \<mapsto> [p]))"

definition loadExplicit :: "'n world \<Rightarrow> string list \<Rightarrow> failure + 'n webpackCLIConfig" where
  "loadExplicit w paths =
     bind (loadAll w paths) (\<lambda>loadedConfigs.
       case loadedConfigs of
         [(l, p)] \<Rightarrow> Inr \<lparr> options = l, path = Map.empty(keyOf l \<mapsto> [p]), fresh = 1 \<rparr>
       | _ \<Rightarrow>
           (case flatten loadedConfigs ([], Map.empty) of
              (out, led) \<Rightarrow> Inr \<lparr> options = Many (Allocated 1) out, path = led, fresh = 2 \<rparr>))"

definition loadDefault :: "'n world \<Rightarrow> failure + 'n webpackCLIConfig" where
  "loadDefault w =
     (case foundDefaultConfigFile w of
        None \<Rightarrow> Inr \<lparr> options = Single \<lparr> ident = Allocated 0, props = [] \<rparr>,
                      path = Map.empty, fresh = 1 \<rparr>
      | Some f \<Rightarrow>
          bind (loadConfigByPath w f) (\<lambda>l.
            Inr \<lparr> options = l,
                  path = (case l of
                            Single c \<Rightarrow> Map.empty(ident c \<mapsto> [f])
                          | Many a items \<Rightarrow> foldl (\<lambda>led item. led(ident item \<mapsto> [f])) Map.empty items),
                  fresh = 1 \<rparr>))"

subsection \<open>Selection by name\<close>

definition hasName :: "string \<Rightarrow> 'n config \<Rightarrow> bool" where
  "hasName configName c = (map_of (props c) ''name'' = Some (JStr configName))"

definition findByName :: "'n loaded \<Rightarrow> string \<Rightarrow> 'n config option" where
  "findByName l configName =
     (case l of
        Many a cs \<Rightarrow> find (hasName configName) cs
      | Single c \<Rightarrow> if hasName configName c then Some c else None)"

definition selectByName :: "'n webpackCLIConfig \<Rightarrow> string list \<Rightarrow> failure + 'n webpackCLIConfig" where
  "selectByName cfg names =
     (let notFoundConfigNames = filter (\<lambda>n. findByName (options cfg) n = None) names in
      if notFoundConfigNames \<noteq> [] then Inl (ConfigNameNotFound notFoundConfigNames)
      else Inr (cfg\<lparr> options := Many (Allocated (fresh cfg))
                                   (List.map_filter (findByName (options cfg)) names),
                     fresh := fresh cfg + 1 \<rparr>))"

subsection \<open>\<open>resolveExtends\<close>\<close>

definition extendsOf :: "'n config \<Rightarrow> 'n jsv" where
  "extendsOf c = (case map_of (props c) ''extends'' of None \<Rightarrow> JUndefined | Some v \<Rightarrow> v)"

text \<open>
  \<open>typeof x === "string" ? [x] : x\<close> followed by \<open>.map\<close> with \<open>path.resolve\<close>: anything
  but a string or an array of strings throws.
\<close>

fun asString :: "'n jsv \<Rightarrow> string option" where
  "asString (JStr s) = Some s"
| "asString _ = None"

fun pathsOfExtends :: "'n jsv \<Rightarrow> failure + string list" where
  "pathsOfExtends (JStr s) = Inr [s]"
| "pathsOfExtends (JArr xs) =
     (if list_all (\<lambda>x. asString x \<noteq> None) xs then Inr (List.map_filter asString xs)
      else Inl TypeError)"
| "pathsOfExtends _ = Inl TypeError"

text \<open>
  One call of \<open>resolveExtends\<close> up to its recursive call: delete \<open>config.extends\<close>,
  load the extended files, check the loaded paths against the ledger entry of the
  configuration, merge, and record the paths under the merged object.
\<close>

definition extendsStep ::
  "'n world \<Rightarrow> 'n config \<Rightarrow> ledger \<times> nat \<Rightarrow> string list \<Rightarrow> failure + 'n config \<times> ledger \<times> nat" where
  "extendsStep w config st extendsPaths =
     (case st of (configPaths, fr) \<Rightarrow>
      let config0 = config\<lparr>props := AList.delete ''extends'' (props config)\<rparr> in
      bind (loadAll w extendsPaths) (\<lambda>loadedConfigs.
        case concat (map (\<lambda>lp. itemsOf (fst lp)) loadedConfigs) of
          [] \<Rightarrow> Inr (config0, configPaths, fr)
        | first # rest \<Rightarrow>
            (let prevPaths = configPaths (ident config0);
                 loadedPaths = map snd loadedConfigs
             in case prevPaths of
                  Some prev \<Rightarrow>
                    if filter (\<lambda>element. element \<in> set prev) loadedPaths \<noteq> []
                    then Inl RecursiveConfiguration
                    else (let merged = merge fr first (rest @ [config0])
                          in Inr (merged, configPaths(ident merged \<mapsto> prev @ loadedPaths), fr + 1))
                | None \<Rightarrow> Inr (merge fr first (rest @ [config0]), configPaths, fr + 1))))"

text \<open>
  The recursion of \<open>resolveExtends\<close> is not bounded by its arguments, so the model
  counts calls: \<open>None\<close> is a run that needs more calls than the fuel allows.
\<close>

fun resolveExtends ::
  "nat \<Rightarrow> 'n world \<Rightarrow> 'n config \<Rightarrow> ledger \<times> nat \<Rightarrow> string list
     \<Rightarrow> (failure + 'n config \<times> ledger \<times> nat) option" where
  "resolveExtends 0 w config st extendsPaths = None"
| "resolveExtends (Suc n) w config st extendsPaths =
     (case extendsStep w config st extendsPaths of
        Inl e \<Rightarrow> Some (Inl e)
      | Inr (config', st') \<Rightarrow>
          if truthy (numOps w) (extendsOf config') then
            (case pathsOfExtends (extendsOf config') of
               Inl e \<Rightarrow> Some (Inl e)
             | Inr ps \<Rightarrow> resolveExtends n w config' st' ps)
          else Some (Inr (config', st')))"





subsection \<open>The callers of \<open>resolveExtends\<close> in \<open>loadConfig\<close>\<close>

text \<open>
  \<open>resolveExtends\<close> begins with \<open>delete config.extends\<close> on the object it is called
  with.  When that object is one a module exports, every later load of the module
  yields it without the property.  \<open>cached\<close> is the world after the deletion on the
  objects of the given identities.
\<close>

fun shared :: "oid \<Rightarrow> bool" where
  "shared (FileObject i) = True"
| "shared _ = False"

definition withoutExtends :: "oid list \<Rightarrow> 'n config \<Rightarrow> 'n config" where
  "withoutExtends deleted c =
     (if shared (ident c) \<and> ident c \<in> set deleted
      then c\<lparr>props := AList.delete ''extends'' (props c)\<rparr> else c)"

definition cached :: "oid list \<Rightarrow> 'n world \<Rightarrow> 'n world" where
  "cached deleted w =
     w\<lparr>loadConfigByPath := (\<lambda>p.
          case loadConfigByPath w p of
            Inl e \<Rightarrow> Inl e
          | Inr (Single c) \<Rightarrow> Inr (Single (withoutExtends deleted c))
          | Inr (Many a cs) \<Rightarrow> Inr (Many a (map (withoutExtends deleted) cs)))\<rparr>"

text \<open>
  The three callers: with the paths of \<open>options.extends\<close> for every configuration,
  or with each configuration's own \<open>extends\<close> where it has one.
\<close>

definition resolveOne ::
  "nat \<Rightarrow> 'n world \<Rightarrow> string list option \<Rightarrow> 'n config \<Rightarrow> ledger \<times> nat
     \<Rightarrow> (failure + 'n config \<times> ledger \<times> nat) option" where
  "resolveOne n w cli c st =
     (case cli of
        Some extendsPaths \<Rightarrow> resolveExtends n w c st extendsPaths
      | None \<Rightarrow>
          if truthy (numOps w) (extendsOf c) then
            (case pathsOfExtends (extendsOf c) of
               Inl e \<Rightarrow> Some (Inl e)
             | Inr ps \<Rightarrow> resolveExtends n w c st ps)
          else Some (Inr (c, st)))"

text \<open>
  For an array of configurations the callback of \<open>map\<close> runs for all elements, in
  order, before any load has completed, and each call of \<open>resolveExtends\<close> it makes
  deletes \<open>extends\<close> at once.  So an element is looked at with the deletions of the
  elements before it, and every load finds the deletions of all of them.  The calls
  then run side by side; the model runs them in order and reports the first failure
  in that order.
\<close>

definition startsCall :: "'n numops \<Rightarrow> string list option \<Rightarrow> 'n config \<Rightarrow> bool" where
  "startsCall ops cli c = (cli \<noteq> None \<or> truthy ops (extendsOf c))"

fun deletions :: "'n numops \<Rightarrow> string list option \<Rightarrow> oid list \<Rightarrow> 'n config list \<Rightarrow> oid list" where
  "deletions ops cli deleted [] = deleted"
| "deletions ops cli deleted (c # cs) =
     deletions ops cli
       (if startsCall ops cli (withoutExtends deleted c) then ident c # deleted else deleted) cs"

fun resolveMany ::
  "nat \<Rightarrow> 'n world \<Rightarrow> string list option \<Rightarrow> oid list \<Rightarrow> 'n config list \<Rightarrow> ledger \<times> nat
     \<Rightarrow> (failure + 'n config list \<times> ledger \<times> nat) option" where
  "resolveMany n w cli deleted [] st = Some (Inr ([], st))"
| "resolveMany n w cli deleted (c # cs) st =
     (case resolveOne n w cli (withoutExtends deleted c) st of
        None \<Rightarrow> None
      | Some (Inl e) \<Rightarrow> Some (Inl e)
      | Some (Inr (c', st')) \<Rightarrow>
          (case resolveMany n w cli
                  (if startsCall (numOps w) cli (withoutExtends deleted c) then ident c # deleted
                   else deleted) cs st' of
             None \<Rightarrow> None
           | Some (Inl e) \<Rightarrow> Some (Inl e)
           | Some (Inr (cs', st'')) \<Rightarrow> Some (Inr (c' # cs', st''))))"

definition resolveAllExtends ::
  "nat \<Rightarrow> 'n world \<Rightarrow> cliOptions \<Rightarrow> 'n webpackCLIConfig
     \<Rightarrow> (failure + 'n webpackCLIConfig) option" where
  "resolveAllExtends n w opts cfg =
     (let st = (path cfg, fresh cfg);
          single = (\<lambda>r. case r of
                      None \<Rightarrow> None
                    | Some (Inl e) \<Rightarrow> Some (Inl e)
                    | Some (Inr (c', led, fr)) \<Rightarrow>
                        Some (Inr (cfg\<lparr>options := Single c', path := led, fresh := fr\<rparr>)));
          many = (\<lambda>r. case r of
                    None \<Rightarrow> None
                  | Some (Inl e) \<Rightarrow> Some (Inl e)
                  | Some (Inr (cs', led, fr)) \<Rightarrow>
                      Some (Inr (cfg\<lparr>options := Many (Allocated fr) cs', path := led,
                                     fresh := fr + 1\<rparr>)));
          resolveEach = (\<lambda>cli cs.
                    many (resolveMany n (cached (deletions (numOps w) cli [] cs) w) cli [] cs st));
          resolveThis = (\<lambda>cli c. single (resolveOne n (cached [ident c] w) cli c st))
      in if optExtends opts \<noteq> [] then
           (case options cfg of
              Many a cs \<Rightarrow> resolveEach (Some (optExtends opts)) cs
            | Single c \<Rightarrow> resolveThis (Some (optExtends opts)) c)
         else
           (case options cfg of
              Many a cs \<Rightarrow>
                if list_ex (\<lambda>c. truthy (numOps w) (extendsOf c)) cs
                then resolveEach None cs
                else Some (Inr cfg)
            | Single c \<Rightarrow>
                if truthy (numOps w) (extendsOf c) then resolveThis None c
                else Some (Inr cfg)))"

subsection \<open>The \<open>--merge\<close> reduction and \<open>loadConfig\<close>\<close>

text \<open>
  \<open>config.options.reduce(..., {})\<close> on the accumulator, \<open>mergedConfigPaths\<close> and the
  allocation counter.
\<close>

fun mergeReduce ::
  "ledger \<Rightarrow> 'n config list \<Rightarrow> 'n config \<times> string list \<times> nat \<Rightarrow> 'n config \<times> string list \<times> nat" where
  "mergeReduce led [] acc = acc"
| "mergeReduce led (c # cs) (accumulator, mergedConfigPaths, fr) =
     mergeReduce led cs
       (merge fr accumulator [c],
        mergedConfigPaths @ (case led (ident c) of None \<Rightarrow> [] | Some configPath \<Rightarrow> configPath),
        fr + 1)"

definition mergeAll :: "'n webpackCLIConfig \<Rightarrow> failure + 'n webpackCLIConfig" where
  "mergeAll cfg =
     (case options cfg of
        Single c \<Rightarrow> Inl MergeNeedsTwo
      | Many a cs \<Rightarrow>
          if length cs \<le> 1 then Inl MergeNeedsTwo
          else (case mergeReduce (path cfg) cs
                       (\<lparr> ident = Allocated (fresh cfg), props = [] \<rparr>, [], fresh cfg + 1) of
                  (merged, mergedConfigPaths, fr) \<Rightarrow>
                    Inr \<lparr> options = Single merged,
                          path = (path cfg)(ident merged \<mapsto> mergedConfigPaths),
                          fresh = fr \<rparr>))"

definition loadConfig ::
  "nat \<Rightarrow> 'n world \<Rightarrow> cliOptions \<Rightarrow> (failure + 'n webpackCLIConfig) option" where
  "loadConfig n w opts =
     (case (if optConfig opts \<noteq> [] then loadExplicit w (optConfig opts) else loadDefault w) of
        Inl e \<Rightarrow> Some (Inl e)
      | Inr cfg1 \<Rightarrow>
          (case (case optConfigName opts of None \<Rightarrow> Inr cfg1 | Some names \<Rightarrow> selectByName cfg1 names) of
             Inl e \<Rightarrow> Some (Inl e)
           | Inr cfg2 \<Rightarrow>
               (case resolveAllExtends n w opts cfg2 of
                  None \<Rightarrow> None
                | Some (Inl e) \<Rightarrow> Some (Inl e)
                | Some (Inr cfg3) \<Rightarrow> Some (if optMerge opts then mergeAll cfg3 else Inr cfg3))))"

subsection \<open>Example worlds\<close>

text \<open>
  Two explicit configuration files: \<open>/a.js\<close> exports an array of one configuration,
  \<open>/b.js\<close> a single configuration.
\<close>

definition firstConfig :: "unit config" where
  "firstConfig = \<lparr> ident = FileObject 1, props = [(''name'', JStr ''first'')] \<rparr>"

definition secondConfig :: "unit config" where
  "secondConfig = \<lparr> ident = FileObject 2, props = [(''name'', JStr ''second'')] \<rparr>"

definition unitOps :: "unit numops" where
  "unitOps = \<lparr> toNumber = (\<lambda>s. ()), isNaN = (\<lambda>n. True), isZero = (\<lambda>n. False) \<rparr>"

definition arrayWorld :: "unit world" where
  "arrayWorld =
     \<lparr> resolve = (\<lambda>p. p),
       loadConfigByPath = (\<lambda>p.
         if p = ''/a.js'' then Inr (Many (FileObject 0) [firstConfig])
         else if p = ''/b.js'' then Inr (Single secondConfig)
         else Inl (LoadFailed p)),
       foundDefaultConfigFile = None,
       numOps = unitOps \<rparr>"

definition twoPaths :: cliOptions where
  "twoPaths =
     \<lparr> optConfig = [''/a.js'', ''/b.js''], optConfigName = None, optExtends = [], optMerge = False \<rparr>"




text \<open>Two files that extend each other.\<close>

definition cycleWorld :: "unit world" where
  "cycleWorld =
     \<lparr> resolve = (\<lambda>p. p),
       loadConfigByPath = (\<lambda>p.
         if p = ''/a.js'' then Inr (Single \<lparr> ident = FileObject 1, props = [(''extends'', JStr ''/b.js'')] \<rparr>)
         else if p = ''/b.js'' then Inr (Single \<lparr> ident = FileObject 2, props = [(''extends'', JStr ''/a.js'')] \<rparr>)
         else Inl (LoadFailed p)),
       foundDefaultConfigFile = None,
       numOps = unitOps \<rparr>"

definition onePath :: cliOptions where
  "onePath = \<lparr> optConfig = [''/a.js''], optConfigName = None, optExtends = [], optMerge = False \<rparr>"

definition bothPaths :: cliOptions where
  "bothPaths =
     \<lparr> optConfig = [''/a.js'', ''/b.js''], optConfigName = None, optExtends = [], optMerge = False \<rparr>"

text \<open>Two configurations with one plugin each, to be merged.\<close>

definition pluginConfigs :: "unit webpackCLIConfig" where
  "pluginConfigs =
     \<lparr> options = Many (Allocated 1)
         [\<lparr> ident = FileObject 1, props = [(''plugins'', JArr [JStr ''P1''])] \<rparr>,
          \<lparr> ident = FileObject 2, props = [(''plugins'', JArr [JStr ''P2''])] \<rparr>],
       path = Map.empty(FileObject 1 \<mapsto> [''/1.js''], FileObject 2 \<mapsto> [''/2.js'']),
       fresh = 2 \<rparr>"

section \<open>Applying the command-line values in \<open>buildConfig\<close>\<close>

text \<open>
  \<open>toKebabCase\<close>: a hyphen goes between a lower-case letter or digit and the
  upper-case letter that follows it, then the string is lower-cased.  Characters are
  ASCII; any other character is left as it is.
\<close>

definition isLowerOrDigit :: "char \<Rightarrow> bool" where
  "isLowerOrDigit c = (c \<in> set ''abcdefghijklmnopqrstuvwxyz0123456789'')"

definition isUpper :: "char \<Rightarrow> bool" where
  "isUpper c = (c \<in> set ''ABCDEFGHIJKLMNOPQRSTUVWXYZ'')"

definition toLower :: "char \<Rightarrow> char" where
  "toLower c =
     (case map_of (zip ''ABCDEFGHIJKLMNOPQRSTUVWXYZ'' ''abcdefghijklmnopqrstuvwxyz'') c of
        Some l \<Rightarrow> l
      | None \<Rightarrow> c)"

fun hyphenate :: "string \<Rightarrow> string" where
  "hyphenate (a # b # cs) =
     (if isLowerOrDigit a \<and> isUpper b then a # CHR ''-'' # hyphenate (b # cs)
      else a # hyphenate (b # cs))"
| "hyphenate cs = cs"

definition toKebabCase :: "string \<Rightarrow> string" where
  "toKebabCase str = map toLower (hyphenate str)"

text \<open>
  The first \<open>reduce\<close> of \<open>internalBuildConfig\<close>: the flags of group \<open>core\<close> by name,
  in the plain object \<open>args\<close>.
\<close>

definition coreArgs :: "'n builtInOption list \<Rightarrow> (string \<times> 'n builtInOption) list" where
  "coreArgs flags =
     foldl (\<lambda>accumulator flag.
              if group flag = Some ''core'' then AList.update (name flag) flag accumulator
              else accumulator) [] flags"

text \<open>
  The second \<open>reduce\<close>, over the entries of \<open>options\<close> in key order; the key \<open>argv\<close>
  is passed over.  The test \<open>args[kebabName]\<close> reads a plain object: it is truthy for
  the name of a flag of group \<open>core\<close> and for the name of an inherited property.  The
  assignment \<open>accumulator[kebabName] = ...\<close> writes a plain object: it binds the
  name, except for \<open>__proto__\<close>.
\<close>

definition valueStep ::
  "(string \<times> 'n builtInOption) list \<Rightarrow> (string \<times> 'n jsv) list \<Rightarrow> string \<times> 'n jsv
     \<Rightarrow> (string \<times> 'n jsv) list" where
  "valueStep args accumulator nv =
     (if fst nv = ''argv'' then accumulator
      else (let kebabName = toKebabCase (fst nv) in
            if map_of args kebabName \<noteq> None \<or> kebabName \<in> set objectPrototype then
              (if kebabName = ''__proto__'' then accumulator
               else AList.update kebabName (snd nv) accumulator)
            else accumulator))"

definition collectValues ::
  "(string \<times> 'n builtInOption) list \<Rightarrow> (string \<times> 'n jsv) list \<Rightarrow> (string \<times> 'n jsv) list" where
  "collectValues args opts = foldl (valueStep args) [] opts"

text \<open>
  \<open>processArguments\<close> belongs to the build engine: given the flags, the
  configuration and the values it returns the problems (or \<open>null\<close>) and leaves the
  configuration changed in place.  It is called only when there is a value to apply;
  problems end the run.
\<close>

type_synonym ('n, 'c) processor =
  "(string \<times> 'n builtInOption) list \<Rightarrow> 'c \<Rightarrow> (string \<times> 'n jsv) list \<Rightarrow> problem list option \<times> 'c"

definition applyOptions ::
  "('n, 'c) processor \<Rightarrow> 'n builtInOption list \<Rightarrow> (string \<times> 'n jsv) list \<Rightarrow> 'c \<Rightarrow> failure + 'c" where
  "applyOptions processArguments flags opts item =
     (let args = coreArgs flags; values = collectValues args opts in
      if values \<noteq> [] then
        (case processArguments args item values of
           (Some problems, item') \<Rightarrow> Inl (ArgumentProblems problems)
         | (None, item') \<Rightarrow> Inr item')
      else Inr item)"

text \<open>Two flags of the schema, one of them of group \<open>core\<close>, for evaluating examples.\<close>

definition modeFlag :: "unit builtInOption" where
  "modeFlag =
     \<lparr> name = ''mode'', optAlias = None,
       configs = Some [\<lparr> ctype = TEnum [EnumString], cNegatedDescription = None \<rparr>],
       otype = None, multiple = False, valueName = None, description = None,
       negatedDescription = None, negative = False, defaultValue = JUndefined,
       helpLevel = Some Minimum, group = Some ''core'' \<rparr>"

definition exampleSchema :: "unit builtInOption list" where
  "exampleSchema = [progressFlag, modeFlag]"

section \<open>The command registry \<open>makeCommand\<close>\<close>

text \<open>
  \<open>commandOptions.alias\<close> is absent, one string, or an array of strings.  A
  registered command is what \<open>this.program.commands\<close> holds: its name, its aliases
  and what \<open>makeCommand\<close> set on it.
\<close>

datatype aliasSpec = NoAlias | OneAlias string | ManyAliases "string list"

record commandOptions =
  cmdName :: string
  cmdAlias :: aliasSpec
  cmdDescription :: "string option"
  cmdUsage :: "string option"
  cmdPkg :: "string option"
  cmdHidden :: bool
  cmdIsDefault :: bool
  cmdDependencies :: "string list"

record 'n command =
  cName :: string
  cAliases :: "string list"
  cDescription :: string
  cUsage :: "string option"
  cPkg :: string
  cHidden :: bool
  cIsDefault :: bool
  cOptions :: "'n cliOption list"

record 'n program =
  commands :: "'n command list"
  forHelp :: bool

text \<open>
  The options of a command are a list, or a function producing one when called (it
  may fail instead).  The packages present, the outcome of an installation and the
  packages given by a custom path come from the environment.
\<close>

datatype 'n optionsProvider = Static "'n builtInOption list" | Deferred "failure + 'n builtInOption list"

record packages =
  checkPackageExists :: "string \<Rightarrow> bool"
  doInstall :: "string \<Rightarrow> bool"
  customPackage :: "string \<Rightarrow> bool"

text \<open>\<open>name.split(" ")[0]\<close>, and the name commander gives the new command: the first run of characters other than a space.\<close>

definition firstWord :: "string \<Rightarrow> string" where
  "firstWord s = takeWhile (\<lambda>c. c \<noteq> CHR '' '') s"

definition commanderName :: "string \<Rightarrow> failure + string" where
  "commanderName s =
     (let rest = dropWhile (\<lambda>c. c = CHR '' '') s in
      if rest = [] then Inl TypeError else Inr (takeWhile (\<lambda>c. c \<noteq> CHR '' '') rest))"

text \<open>
  \<open>command.aliases().includes(commandOptions.alias as string)\<close>: the aliases are
  strings, so the test holds for a string alias among them and for nothing else.
\<close>

fun includesAlias :: "string list \<Rightarrow> aliasSpec \<Rightarrow> bool" where
  "includesAlias aliases (OneAlias a) = (a \<in> set aliases)"
| "includesAlias aliases _ = False"

definition alreadyLoaded :: "'n program \<Rightarrow> commandOptions \<Rightarrow> 'n command option" where
  "alreadyLoaded prog commandOptions =
     find (\<lambda>command. cName command = firstWord (cmdName commandOptions)
                      \<or> includesAlias (cAliases command) (cmdAlias commandOptions))
          (commands prog)"

fun aliasList :: "aliasSpec \<Rightarrow> string list" where
  "aliasList NoAlias = []"
| "aliasList (OneAlias a) = [a]"
| "aliasList (ManyAliases as) = as"

text \<open>
  The loop over the dependencies on \<open>allDependenciesInstalled\<close>: a missing package
  is noted when only help is assembled, passed over when given by a custom path, and
  installed otherwise; a failed installation ends the run.
\<close>

fun checkDependencies :: "packages \<Rightarrow> bool \<Rightarrow> string list \<Rightarrow> bool \<Rightarrow> failure + bool" where
  "checkDependencies env help [] allInstalled = Inr allInstalled"
| "checkDependencies env help (dependency # ds) allInstalled =
     (if checkPackageExists env dependency then checkDependencies env help ds allInstalled
      else if help then checkDependencies env help ds False
      else if customPackage env dependency then checkDependencies env help ds allInstalled
      else if doInstall env dependency then checkDependencies env help ds allInstalled
      else Inl (InstallFailed dependency))"

definition quoted :: "string \<Rightarrow> string" where
  "quoted s = [CHR 0x27] @ s @ [CHR 0x27]"

fun joinWith :: "string \<Rightarrow> string list \<Rightarrow> string" where
  "joinWith sep [] = []"
| "joinWith sep [x] = x"
| "joinWith sep (x # y # ys) = x @ sep @ joinWith sep (y # ys)"

definition makeCommand ::
  "packages \<Rightarrow> 'n program \<Rightarrow> commandOptions \<Rightarrow> 'n optionsProvider option \<Rightarrow> failure + 'n program" where
  "makeCommand env prog commandOptions opts =
     (if alreadyLoaded prog commandOptions \<noteq> None then Inr prog
      else
        bind (commanderName (cmdName commandOptions)) (\<lambda>nm.
        bind (checkDependencies env (forHelp prog) (cmdDependencies commandOptions) True)
          (\<lambda>allDependenciesInstalled.
        let withheld = (forHelp prog \<and> \<not> allDependenciesInstalled);
            description0 =
              (if strTruthy (cmdDescription commandOptions) then the (cmdDescription commandOptions)
               else []);
            resolved =
              (case opts of
                 None \<Rightarrow> Inr (description0, [])
               | Some (Static os) \<Rightarrow> Inr (description0, os)
               | Some (Deferred r) \<Rightarrow>
                   if withheld then
                     Inr ((case cmdDescription commandOptions of None \<Rightarrow> ''undefined'' | Some d \<Rightarrow> d)
                            @ '' To see all available options you need to install ''
                            @ joinWith '', '' (map quoted (cmdDependencies commandOptions)) @ ''.'',
                          [])
                   else bind r (\<lambda>os. Inr (description0, os)))
        in bind resolved (\<lambda>dos.
             Inr (prog\<lparr>commands := commands prog @
                    [\<lparr> cName = nm,
                       cAliases = aliasList (cmdAlias commandOptions),
                       cDescription = fst dos,
                       cUsage = (if strTruthy (cmdUsage commandOptions) then cmdUsage commandOptions
                                 else None),
                       cPkg = orElse (cmdPkg commandOptions) ''webpack-cli'',
                       cHidden = cmdHidden commandOptions,
                       cIsDefault = cmdIsDefault commandOptions,
                       cOptions = foldl makeOption [] (snd dos) \<rparr>]\<rparr>)))))"

text \<open>The \<open>build\<close> command as \<open>run\<close> declares it, and a command whose alias array holds \<open>b\<close>.\<close>

definition buildCommandOptions :: commandOptions where
  "buildCommandOptions =
     \<lparr> cmdName = ''build [entries...]'', cmdAlias = ManyAliases [''bundle'', ''b''],
       cmdDescription = Some ''Run webpack (default command, can be omitted).'',
       cmdUsage = Some ''[entries...] [options]'', cmdPkg = None, cmdHidden = False,
       cmdIsDefault = False, cmdDependencies = [''webpack''] \<rparr>"

definition benchCommandOptions :: commandOptions where
  "benchCommandOptions =
     \<lparr> cmdName = ''bench'', cmdAlias = ManyAliases [''b''],
       cmdDescription = None, cmdUsage = None, cmdPkg = Some ''bench-command'', cmdHidden = False,
       cmdIsDefault = False, cmdDependencies = [] \<rparr>"

definition allInstalled :: packages where
  "allInstalled = \<lparr> checkPackageExists = (\<lambda>p. True), doInstall = (\<lambda>p. True), customPackage = (\<lambda>p. False) \<rparr>"

definition emptyProgram :: "unit program" where
  "emptyProgram = \<lparr> commands = [], forHelp = False \<rparr>"

section \<open>Properties of the \<open>--env\<close> parser\<close>

lemma splitValue_no_eq: "CHR ''='' \<notin> set key \<Longrightarrow> splitValue (key @ ''='') = (key @ ''='', None)"
  by (induction key) auto

lemma splitKeys_snoc:
  "CHR ''='' \<notin> set key \<Longrightarrow>
   \<exists>pre k. splitKeys (key @ ''='') = pre @ [k @ ''=''] \<and> (\<forall>s\<in>set pre. CHR ''='' \<notin> set s)
     \<and> (CHR ''.'' \<notin> set key \<longrightarrow> pre = [] \<and> k = key)"
proof (induction key)
  case Nil
  show ?case by (rule exI[of _ "[]"], rule exI[of _ "[]"]) simp
next
  case (Cons c cs)
  then obtain pre k where h: "splitKeys (cs @ ''='') = pre @ [k @ ''='']"
     "\<forall>s\<in>set pre. CHR ''='' \<notin> set s" "CHR ''.'' \<notin> set cs \<longrightarrow> pre = [] \<and> k = cs" by auto
  show ?case
  proof (cases "c = CHR ''.''")
    case True
    then have "splitKeys ((c # cs) @ ''='') = ([] # pre) @ [k @ ''='']" using h by simp
    moreover have "\<forall>s\<in>set ([] # pre). CHR ''='' \<notin> set s" using h by simp
    ultimately show ?thesis using True by (metis list.set_intros(1))
  next
    case False
    show ?thesis
    proof (cases pre)
      case Nil
      then have "splitKeys ((c # cs) @ ''='') = [] @ [(c # k) @ ''='']" using h False by simp
      moreover have "CHR ''.'' \<notin> set (c # cs) \<longrightarrow> c # k = c # cs" using h by simp
      ultimately show ?thesis by (metis empty_iff list.set(1))
    next
      case (Cons p ps)
      then have "splitKeys ((c # cs) @ ''='') = ((c # p) # ps) @ [k @ ''='']" using h False by simp
      moreover have "\<forall>s\<in>set ((c # p) # ps). CHR ''='' \<notin> set s" using h Cons Cons.prems by auto
      moreover have "CHR ''.'' \<in> set (c # cs)" using h(3) Cons by auto
      ultimately show ?thesis by blast
    qed
  qed
qed

lemma envLoop_primitive:
  "ks \<noteq> [] \<Longrightarrow> \<not> (\<exists>m. node = EObj m) \<Longrightarrow> envLoop ks val node = Inl TypeError"
  by (cases ks; cases node) (auto simp: bind_def)

lemma envLoop_descend:
  assumes "\<not> endsWithEq s" and "ks \<noteq> []"
  shows "envLoop (s # ks) val (EObj m) =
    (let v0 = (case map_of m s of None \<Rightarrow> EUndefined | Some v \<Rightarrow> v);
         m2 = (if falsy v0 \<or> isString v0 then AList.update s (EObj []) m else m);
         child = (case map_of m2 s of None \<Rightarrow> EUndefined | Some v \<Rightarrow> v)
     in bind (envLoop ks val child) (\<lambda>child'.
          case child of EObj _ \<Rightarrow> Inr (EObj (AList.update s child' m2)) | _ \<Rightarrow> Inr (EObj m2)))"
proof (cases "map_of m s")
  case None
  then show ?thesis using assms by (simp add: bind_def update_conv' Let_def split: sum.splits)
next
  case (Some v)
  then show ?thesis using assms
    by (cases v) (simp_all add: bind_def update_conv' Let_def split: sum.splits)
qed

lemma envLoop_trailing:
  "\<forall>s\<in>set pre. CHR ''='' \<notin> set s \<Longrightarrow> envLoop (pre @ [k @ ''='']) val node = Inr r \<Longrightarrow>
   envLookup (pre @ [k]) r = Some EUndefined"
proof (induction pre arbitrary: node r)
  case Nil
  then show ?case by (cases node) (auto simp: bind_def endsWithEq_def update_conv')
next
  case (Cons s pre)
  have "CHR ''='' \<notin> set s" using Cons.prems(1) by simp
  then have ne: "\<not> endsWithEq s" unfolding endsWithEq_def by (metis last_in_set)
  obtain m where node: "node = EObj m"
    using Cons.prems(2) envLoop_primitive[of "(s # pre) @ [k @ ''='']" node val] by fastforce
  define v0 where "v0 = (case map_of m s of None \<Rightarrow> EUndefined | Some v \<Rightarrow> v)"
  define m2 where "m2 = (if falsy v0 \<or> isString v0 then AList.update s (EObj []) m else m)"
  define child where "child = (case map_of m2 s of None \<Rightarrow> EUndefined | Some v \<Rightarrow> v)"
  have "pre @ [k @ ''=''] \<noteq> []" by simp
  from envLoop_descend[OF ne this, of val m]
  have "envLoop (s # pre @ [k @ ''='']) val (EObj m) =
      bind (envLoop (pre @ [k @ ''='']) val child) (\<lambda>child'.
          case child of EObj _ \<Rightarrow> Inr (EObj (AList.update s child' m2)) | _ \<Rightarrow> Inr (EObj m2))"
    unfolding Let_def child_def m2_def v0_def .
  then have run: "bind (envLoop (pre @ [k @ ''='']) val child) (\<lambda>child'.
          case child of EObj _ \<Rightarrow> Inr (EObj (AList.update s child' m2)) | _ \<Rightarrow> Inr (EObj m2)) = Inr r"
    using Cons.prems(2) node by simp
  then obtain child' where c': "envLoop (pre @ [k @ ''='']) val child = Inr child'"
    by (auto simp: bind_def split: sum.splits)
  obtain cm where cm: "child = EObj cm"
    using c' envLoop_primitive[of "pre @ [k @ ''='']" child val] by fastforce
  have r: "r = EObj (AList.update s child' m2)" using run c' cm by (simp add: bind_def)
  have "envLookup (pre @ [k]) child' = Some EUndefined"
    using Cons.IH[OF _ c'] Cons.prems(1) by simp
  then show ?case by (simp add: r update_conv')
qed

lemma blocked_empty: "\<not> blocked ks (EObj [])"
  by (cases ks) auto

lemma envLoop_returns:
  "\<forall>s\<in>set pre. CHR ''='' \<notin> set s \<Longrightarrow> \<not> blocked pre (EObj m) \<Longrightarrow>
   \<exists>r. envLoop (pre @ [k @ ''='']) val (EObj m) = Inr r"
proof (induction pre arbitrary: m)
  case Nil
  then show ?case by (simp add: bind_def endsWithEq_def)
next
  case (Cons s pre)
  have "CHR ''='' \<notin> set s" using Cons.prems(1) by simp
  then have ne: "\<not> endsWithEq s" unfolding endsWithEq_def by (metis last_in_set)
  define v0 where "v0 = (case map_of m s of None \<Rightarrow> EUndefined | Some v \<Rightarrow> v)"
  define m2 where "m2 = (if falsy v0 \<or> isString v0 then AList.update s (EObj []) m else m)"
  define child where "child = (case map_of m2 s of None \<Rightarrow> EUndefined | Some v \<Rightarrow> v)"
  have "pre @ [k @ ''=''] \<noteq> []" by simp
  from envLoop_descend[OF ne this, of val m]
  have eq: "envLoop (s # pre @ [k @ ''='']) val (EObj m) =
      bind (envLoop (pre @ [k @ ''='']) val child) (\<lambda>child'.
          case child of EObj _ \<Rightarrow> Inr (EObj (AList.update s child' m2)) | _ \<Rightarrow> Inr (EObj m2))"
    unfolding Let_def child_def m2_def v0_def .
  have "\<exists>cm. child = EObj cm \<and> \<not> blocked pre (EObj cm)"
  proof (cases "map_of m s")
    case None
    then show ?thesis by (simp add: child_def m2_def v0_def update_conv' blocked_empty)
  next
    case (Some v)
    then show ?thesis using Cons.prems(2)
      by (cases v) (simp_all add: child_def m2_def v0_def update_conv' blocked_empty)
  qed
  then obtain cm where cm: "child = EObj cm" "\<not> blocked pre (EObj cm)" by blast
  obtain r where "envLoop (pre @ [k @ ''='']) val (EObj cm) = Inr r"
    using Cons.IH[OF _ cm(2)] Cons.prems(1) by auto
  then show ?case using eq cm(1) by (simp add: bind_def)
qed

text \<open>
  An \<open>--env\<close> value that is a key followed by one trailing \<open>=\<close> (the key itself
  holding no \<open>=\<close>) reaches the branch that strips the \<open>=\<close> and assigns
  \<open>undefined\<close>.  For a key whose segments name no inherited property, and with no
  enclosing segment bound to \<open>true\<close>, the parser returns the accumulated object with
  the stripped path bound to \<open>undefined\<close>; for a key without dots the result is the
  accumulated object with that one binding set, any earlier binding replaced.
\<close>

lemma trailing_equals_binds_undefined:
  assumes "CHR ''='' \<notin> set key"
      and "\<forall>s\<in>set (strippedPath (key @ ''='')). s \<notin> set objectPrototype"
      and "\<not> blocked (butlast (strippedPath (key @ ''=''))) (EObj previous)"
  shows "\<exists>r. envParser (key @ ''='') previous = Inr r
           \<and> envLookup (strippedPath (key @ ''='')) r = Some EUndefined
           \<and> (CHR ''.'' \<notin> set key \<longrightarrow> r = EObj (AList.update key EUndefined previous))"
proof -
  obtain pre k where h: "splitKeys (key @ ''='') = pre @ [k @ ''='']"
     "\<forall>s\<in>set pre. CHR ''='' \<notin> set s" "CHR ''.'' \<notin> set key \<longrightarrow> pre = [] \<and> k = key"
    using splitKeys_snoc[OF assms(1)] by blast
  have sp: "strippedPath (key @ ''='') = pre @ [k]" using h(1) by (simp add: strippedPath_def)
  have p: "envParser (key @ ''='') previous = envLoop (pre @ [k @ ''='']) None (EObj previous)"
    using splitValue_no_eq[OF assms(1)] h(1) by (simp add: envParser_def)
  have "\<not> blocked pre (EObj previous)" using assms(3) sp by simp
  then obtain r where r: "envLoop (pre @ [k @ ''='']) None (EObj previous) = Inr r"
    using envLoop_returns[OF h(2)] by blast
  have l: "envLookup (strippedPath (key @ ''='')) r = Some EUndefined"
    using envLoop_trailing[OF h(2) r] sp by simp
  have "CHR ''.'' \<notin> set key \<longrightarrow> r = EObj (AList.update key EUndefined previous)"
    using h(3) r by (auto simp: bind_def endsWithEq_def)
  then show ?thesis using p r l by simp
qed

lemma trailing_equals_replaces:
  "envParser ''foo='' [(''foo'', EStr ''old'')] = Inr (EObj [(''foo'', EUndefined)])"
  by (simp add: envParser_def bind_def endsWithEq_def lineTerminator_def)

text \<open>
  Claim C10, at \<open>--env a --env a.b=\<close>.  The first value binds \<open>a\<close> to \<open>true\<close>.
  At the second, the loop finds \<open>a\<close> bound to \<open>true\<close>, keeps the binding and
  makes it \<open>prevRef\<close>; the branch for the trailing \<open>=\<close> then assigns
  \<open>prevRef["b"] = undefined\<close> on the primitive, which throws a \<open>TypeError\<close> in
  strict code, so nothing is bound and no object is returned.  The loop does replace
  a binding that is a string, or falsy, by an empty object before descending: after
  \<open>--env a=x\<close> the same value binds \<open>a.b\<close> to \<open>undefined\<close>.
\<close>

theorem trailing_equals_under_true:
  "envParser ''a'' [] = Inr (EObj [(''a'', ETrue)])
   \<and> envParser ''a.b='' [(''a'', ETrue)] = Inl TypeError
   \<and> envParserAll [''a'', ''a.b=''] [] = Inl TypeError
   \<and> envParserAll [''a=x'', ''a.b=''] [] = Inr (EObj [(''a'', EObj [(''b'', EUndefined)])])"
  by (simp add: envParser_def bind_def endsWithEq_def lineTerminator_def)








section \<open>Properties of \<open>makeOption\<close>\<close>

lemma enum_fold_fst: "fst (foldl enumStep (h, ty) vs) = (h \<or> EnumBoolean False \<in> set vs)"
proof (induction vs arbitrary: h ty)
  case Nil then show ?case by simp
next
  case (Cons v vs)
  show ?case by (cases v) (auto simp: Cons.IH)
qed

lemma config_fold_fst:
  "fst (foldl configStep (need, nd, ty) cs) = (need \<or> list_ex asksNegation cs)"
proof (induction cs arbitrary: need nd ty)
  case Nil then show ?case by simp
next
  case (Cons c cs)
  obtain need' nd' ty' where st: "configStep (need, nd, ty) c = (need', nd', ty')"
    by (cases "configStep (need, nd, ty) c") auto
  have "need' = (need \<or> asksNegation c)"
  proof (cases "ctype c")
    case (TEnum vs)
    obtain h t where f: "foldl enumStep (False, ty) vs = (h, t)" by (cases "foldl enumStep (False, ty) vs") auto
    have "h = (EnumBoolean False \<in> set vs)" using enum_fold_fst[of False ty vs] f by simp
    then show ?thesis using st TEnum f by (auto simp: asksNegation_def split: if_splits)
  qed (use st in \<open>auto simp: asksNegation_def split: if_splits\<close>)
  then show ?case using Cons.IH[of need' nd' ty'] st by auto
qed

lemma compileMain_negative:
  "(snd (compileMain option) \<noteq> None) = wantsNegative option"
proof (cases "configs option")
  case None
  then show ?thesis by (simp add: compileMain_def wantsNegative_def)
next
  case (Some cs)
  obtain need nd ty where f: "foldl configStep (False, None, []) cs = (need, nd, ty)"
    by (cases "foldl configStep (False, None, []) cs") auto
  have "need = list_ex asksNegation cs" using config_fold_fst[of False None "[]" cs] f by simp
  then show ?thesis using Some f by (simp add: compileMain_def wantsNegative_def)
qed


lemma setAdd_distinct: "distinct xs \<Longrightarrow> distinct (setAdd x xs)"
  by (simp add: setAdd_def)

lemma enum_fold_distinct: "distinct ty \<Longrightarrow> distinct (snd (foldl enumStep (h, ty) vs))"
proof (induction vs arbitrary: h ty)
  case Nil then show ?case by simp
next
  case (Cons v vs)
  show ?case by (cases v) (auto simp: Cons.IH Cons.prems setAdd_distinct)
qed

lemma configStep_distinct:
  "distinct ty \<Longrightarrow> distinct (snd (snd (configStep (need, nd, ty) c)))"
proof (cases "ctype c")
  case (TEnum vs)
  assume d: "distinct ty"
  obtain h t where f: "foldl enumStep (False, ty) vs = (h, t)"
    by (cases "foldl enumStep (False, ty) vs") auto
  have "distinct t" using enum_fold_distinct[OF d, of False vs] f by simp
  then show ?thesis using TEnum f by simp
qed (auto simp: setAdd_distinct)

lemma config_fold_distinct:
  "distinct ty \<Longrightarrow> distinct (snd (snd (foldl configStep (need, nd, ty) cs)))"
proof (induction cs arbitrary: need nd ty)
  case Nil then show ?case by simp
next
  case (Cons c cs)
  obtain need' nd' ty' where st: "configStep (need, nd, ty) c = (need', nd', ty')"
    by (cases "configStep (need, nd, ty) c") auto
  have "distinct ty'" using configStep_distinct[OF Cons.prems, of need nd c] st by simp
  then show ?case using Cons.IH[of ty' need' nd'] st by simp
qed

lemma setAdd_fold_distinct: "distinct acc \<Longrightarrow> distinct (foldl (\<lambda>acc k. setAdd k acc) acc ks)"
  by (induction ks arbitrary: acc) (auto simp: setAdd_distinct)

lemma compileMain_shape:
  "\<exists>nd ty. distinct ty \<and> compileMain option =
     (\<lparr> mFlags = baseFlags option, mValueName = orElse (valueName option) ''value'',
        mDescription = orElse (description option) [], mType = ty,
        mMultiple = multiple option, mDefaultValue = defaultValue option \<rparr>,
      if wantsNegative option then Some (negativeFor option nd) else None)"
proof (cases "configs option")
  case None
  then show ?thesis
    by (cases "otype option") (auto simp: compileMain_def wantsNegative_def setAdd_fold_distinct)
next
  case (Some cs)
  obtain need nd ty where f: "foldl configStep (False, None, []) cs = (need, nd, ty)"
    by (cases "foldl configStep (False, None, []) cs") auto
  have n: "need = list_ex asksNegation cs" using config_fold_fst[of False None "[]" cs] f by simp
  have d: "distinct ty" using config_fold_distinct[of "[]" False None cs] f by simp
  show ?thesis using Some f n d by (auto simp: compileMain_def wantsNegative_def)
qed

lemma withAlias_fields:
  "name (withAlias option) = name option" "valueName (withAlias option) = valueName option"
  "multiple (withAlias option) = multiple option" "wantsNegative (withAlias option) = wantsNegative option"
  "helpLevel (withAlias option) = helpLevel option" "defaultValue (withAlias option) = defaultValue option"
  by (simp_all add: withAlias_def wantsNegative_def split: option.splits)

lemma orElse_nonempty: "d \<noteq> [] \<Longrightarrow> orElse s d \<noteq> []"
  by (simp add: orElse_def split: option.splits)

lemma two_kinds: "distinct ty \<Longrightarrow> (1 < length ty) = (\<exists>a\<in>set ty. \<exists>b\<in>set ty. a \<noteq> b)"
proof (cases ty)
  case Nil then show ?thesis by simp
next
  case (Cons a as)
  assume "distinct ty"
  then show ?thesis using Cons by (cases as) auto
qed

lemma single_kind: "distinct ty \<Longrightarrow> set ty = {x} \<Longrightarrow> ty = [x]"
proof (cases ty)
  case Nil
  assume "set ty = {x}"
  then show ?thesis using Nil by simp
next
  case (Cons a as)
  assume "distinct ty" "set ty = {x}"
  then show ?thesis using Cons by (cases as) auto
qed

text \<open>
  Claim C3, as the code has it.  \<open>makeOption\<close> appends to the command at most one main
  option and then the negated option.  When the kind set holds boolean and another
  kind, the main option's flags end in the optional placeholder \<open>[value]\<close>; when it
  is not empty and holds no boolean, in the required placeholder \<open>\<langle>value\<rangle>\<close>; when it
  is boolean alone, the flags carry no placeholder and no parser (a pure switch).
  The negated option \<open>--no-name\<close> is appended exactly when a config has type
  \<open>boolean\<close> or is an \<open>enum\<close> holding the literal \<open>false\<close> (or, without configs,
  when the option is declared \<open>negative\<close>): boolean entering the kind set through
  \<open>reset\<close> or an \<open>enum\<close> holding \<open>true\<close> asks for no negated option.
\<close>

theorem makeOption_grammar:
  fixes option :: "'n builtInOption"
  defines "ty \<equiv> kindsOf option"
      and "base \<equiv> baseFlags (withAlias option)"
  shows "\<exists>mains neg.
           makeOption command option = command @ mains @ (if wantsNegative option then [neg] else [])
         \<and> oFlags neg = ''--no-'' @ name option
         \<and> (KBoolean \<in> set ty \<and> (\<exists>k\<in>set ty. k \<noteq> KBoolean) \<longrightarrow>
              (\<exists>main. mains = [main] \<and> oFlags main = base @ '' ['' @ valuePart option @ '']''))
         \<and> (ty \<noteq> [] \<and> KBoolean \<notin> set ty \<longrightarrow>
              (\<exists>main. mains = [main] \<and> oFlags main = base @ '' <'' @ valuePart option @ ''>''))
         \<and> (set ty = {KBoolean} \<longrightarrow>
              (\<exists>main. mains = [main] \<and> oFlags main = base \<and> oParser main = NoParser))"
proof -
  obtain nd t where d: "distinct t" and cm: "compileMain (withAlias option) =
     (\<lparr> mFlags = base, mValueName = orElse (valueName option) ''value'',
        mDescription = orElse (description (withAlias option)) [], mType = t,
        mMultiple = multiple option, mDefaultValue = defaultValue option \<rparr>,
      if wantsNegative option then Some (negativeFor (withAlias option) nd) else None)"
    using compileMain_shape[of "withAlias option"] by (auto simp: withAlias_fields base_def)
  have t: "t = ty" using cm by (simp add: ty_def kindsOf_def)
  define m0 where "m0 = fst (compileMain (withAlias option))"
  define main :: "'n cliOption" where "main =
     \<lparr> oFlags = base @ placeholder m0, oDescription = mDescription m0,
        oParser = parserFor ty, oDefault = defaultValue option,
        oHidden = False, oHelpLevel = helpLevel option \<rparr>"
  define stub :: "'n cliOption" where "stub =
     \<lparr> oFlags = base @ placeholder m0, oDescription = mDescription m0,
        oParser = NoParser, oDefault = JUndefined,
        oHidden = True, oHelpLevel = helpLevel option \<rparr>"
  define neg :: "'n cliOption" where "neg =
     \<lparr> oFlags = ''--no-'' @ name option,
        oDescription = nDescription (negativeFor (withAlias option) nd),
        oParser = NoParser, oDefault = JUndefined,
        oHidden = False, oHelpLevel = helpLevel option \<rparr>"
  define mains where "mains = (if ty \<noteq> [] then [main] else if wantsNegative option then [stub] else [])"
  have mk: "makeOption command option = command @ mains @ (if wantsNegative option then [neg] else [])"
  proof -
    have m0: "m0 = \<lparr> mFlags = base, mValueName = orElse (valueName option) ''value'',
        mDescription = orElse (description (withAlias option)) [], mType = ty,
        mMultiple = multiple option, mDefaultValue = defaultValue option \<rparr>"
      using cm t by (simp add: m0_def)
    have cm': "compileMain (withAlias option) =
       (m0, if wantsNegative option then Some (negativeFor (withAlias option) nd) else None)"
      using cm t m0 by simp
    show ?thesis
      unfolding makeOption_def Let_def cm' prod.case
      apply (simp only: mains_def main_def stub_def neg_def withAlias_fields)
      apply (cases "ty = []"; cases "wantsNegative option")
      apply (simp_all add: m0 negativeFor_def)
      apply (simp add: withAlias_fields(1))
      apply (cases ty; simp add: withAlias_fields(1))
      apply (cases ty; simp)
      done
  qed
  have vn: "mValueName m0 = orElse (valueName option) ''value''" "mMultiple m0 = multiple option"
     "mType m0 = ty"
    using cm t by (simp_all add: m0_def)
  have vne: "orElse (valueName option) ''value'' \<noteq> []" by (rule orElse_nonempty) simp
  have len: "(1 < length ty) = (\<exists>a\<in>set ty. \<exists>b\<in>set ty. a \<noteq> b)"
    using two_kinds d t by blast
  have opt: "KBoolean \<in> set ty \<and> (\<exists>k\<in>set ty. k \<noteq> KBoolean) \<longrightarrow>
              (\<exists>main. mains = [main] \<and> oFlags main = base @ '' ['' @ valuePart option @ '']'')"
  proof
    assume a: "KBoolean \<in> set ty \<and> (\<exists>k\<in>set ty. k \<noteq> KBoolean)"
    then have "1 < length ty" using len by blast
    then have "placeholder m0 = '' ['' @ valuePart option @ '']''"
      using a vn vne by (simp add: placeholder_def valuePart_def)
    moreover have "ty \<noteq> []" using a by auto
    ultimately show "\<exists>main. mains = [main] \<and> oFlags main = base @ '' ['' @ valuePart option @ '']''"
      by (simp add: mains_def main_def)
  qed
  have req: "ty \<noteq> [] \<and> KBoolean \<notin> set ty \<longrightarrow>
              (\<exists>main. mains = [main] \<and> oFlags main = base @ '' <'' @ valuePart option @ ''>'')"
  proof
    assume a: "ty \<noteq> [] \<and> KBoolean \<notin> set ty"
    then have "placeholder m0 = '' <'' @ valuePart option @ ''>''"
      using vn vne by (simp add: placeholder_def valuePart_def)
    then show "\<exists>main. mains = [main] \<and> oFlags main = base @ '' <'' @ valuePart option @ ''>''"
      using a by (simp add: mains_def main_def)
  qed
  have sw: "set ty = {KBoolean} \<longrightarrow>
              (\<exists>main. mains = [main] \<and> oFlags main = base \<and> oParser main = NoParser)"
  proof
    assume a: "set ty = {KBoolean}"
    have ty1: "ty = [KBoolean]" using single_kind[of ty KBoolean] d t a by blast
    have "placeholder m0 = []" using vn ty1 by (simp add: placeholder_def)
    moreover have "parserFor ty = NoParser" by (simp add: ty1 parserFor_def)
    ultimately show "\<exists>main. mains = [main] \<and> oFlags main = base \<and> oParser main = NoParser"
      using ty1 by (simp add: mains_def main_def)
  qed
  have nf: "oFlags neg = ''--no-'' @ name option" by (simp add: neg_def)
  show ?thesis
    by (rule exI[of _ mains], rule exI[of _ neg]) (intro conjI mk nf opt req sw)
qed


theorem makeOption_grammar_witness:
  "(\<exists>main. makeOption [] (progressFlag :: unit builtInOption) = [main]
         \<and> oFlags main = ''--progress [value]'')
   \<and> (\<exists>main. makeOption [] numberStringFlag = [main] \<and> oFlags main = ''--port <value...>'')
   \<and> (\<exists>main. makeOption [] (mergeFlag :: unit builtInOption) = [main]
         \<and> oFlags main = ''-m, --merge'' \<and> oParser main = NoParser)"
proof -
  have k1: "kindsOf (progressFlag :: unit builtInOption) = [KString, KBoolean]"
    by (simp add: kindsOf_def compileMain_def withAlias_def progressFlag_def flagsWithAlias_def
        setAdd_def)
  have w1: "\<not> wantsNegative (progressFlag :: unit builtInOption)"
    by (simp add: wantsNegative_def progressFlag_def asksNegation_def)
  have b1: "baseFlags (withAlias (progressFlag :: unit builtInOption)) = ''--progress''"
    by (simp add: baseFlags_def withAlias_def progressFlag_def flagsWithAlias_def strTruthy_def)
  have v1: "valuePart (progressFlag :: unit builtInOption) = ''value''"
    by (simp add: valuePart_def progressFlag_def orElse_def)
  have p1: "\<exists>main. makeOption [] (progressFlag :: unit builtInOption) = [main]
         \<and> oFlags main = ''--progress [value]''"
    using makeOption_grammar[of "[]" "progressFlag :: unit builtInOption"] k1 w1 b1 v1 by auto
  have k2: "kindsOf numberStringFlag = [KNumber, KString]"
    by (simp add: kindsOf_def compileMain_def withAlias_def numberStringFlag_def
        flagsWithAlias_def setAdd_def)
  have w2: "\<not> wantsNegative numberStringFlag"
    by (simp add: wantsNegative_def numberStringFlag_def asksNegation_def)
  have b2: "baseFlags (withAlias numberStringFlag) = ''--port''"
    by (simp add: baseFlags_def withAlias_def numberStringFlag_def flagsWithAlias_def strTruthy_def)
  have v2: "valuePart numberStringFlag = ''value...''"
    by (simp add: valuePart_def numberStringFlag_def orElse_def)
  have p2: "\<exists>main. makeOption [] numberStringFlag = [main] \<and> oFlags main = ''--port <value...>''"
    using makeOption_grammar[of "[]" numberStringFlag] k2 w2 b2 v2 by auto
  have k3: "kindsOf (mergeFlag :: unit builtInOption) = [KBoolean]"
    by (simp add: kindsOf_def compileMain_def withAlias_def mergeFlag_def flagsWithAlias_def
        setAdd_def)
  have w3: "\<not> wantsNegative (mergeFlag :: unit builtInOption)"
    by (simp add: wantsNegative_def mergeFlag_def asksNegation_def)
  have b3: "baseFlags (withAlias (mergeFlag :: unit builtInOption)) = ''-m, --merge''"
    by (simp add: baseFlags_def withAlias_def mergeFlag_def flagsWithAlias_def strTruthy_def)
  have p3: "\<exists>main. makeOption [] (mergeFlag :: unit builtInOption) = [main]
         \<and> oFlags main = ''-m, --merge'' \<and> oParser main = NoParser"
    using makeOption_grammar[of "[]" "mergeFlag :: unit builtInOption"] k3 w3 b3 by auto
  show ?thesis using p1 p2 p3 by blast
qed

text \<open>
  Claim C3 as stated fails on the \<open>progress\<close> flag of \<open>getBuiltInOptions\<close>: its kind
  set holds string and boolean, its flags take an optional value, and no
  \<open>--no-progress\<close> is added.
\<close>

theorem progress_without_negation:
  "kindsOf (progressFlag :: unit builtInOption) = [KString, KBoolean]
   \<and> map oFlags (makeOption [] (progressFlag :: unit builtInOption)) = [''--progress [value]'']"
  by (simp add: kindsOf_def makeOption_def compileMain_def withAlias_def progressFlag_def
      flagsWithAlias_def setAdd_def baseFlags_def strTruthy_def orElse_def placeholder_def
      parserFor_def Let_def)

subsection \<open>The parser closures\<close>

lemma first_occurrence:
  assumes "mMultiple m" "truthy ops (mDefaultValue m)"
  shows "numberArgParser ops m v (mDefaultValue m, True) = numberArgParser ops m v (JArr [], False)"
    and "stringArgParser ops m v (mDefaultValue m, True) = stringArgParser ops m v (JArr [], False)"
    and "multiArgParser ops m v (mDefaultValue m, True) = multiArgParser ops m v (JArr [], False)"
  using assms
  by (simp_all add: numberArgParser_def stringArgParser_def multiArgParser_def dropDefault_def
      defaultPrev_def)

lemma attached_first:
  assumes "mMultiple m" "truthy ops (mDefaultValue m)" "attachedParser ops m = Some p"
  shows "p v (mDefaultValue m, True) = p v (JArr [], False)"
  using assms first_occurrence[OF assms(1,2)]
  by (auto simp: attachedParser_def split: parserKind.splits)

lemma attached_step:
  assumes "mMultiple m" "attachedParser ops m = Some p"
    and "parserFor (mType m) = MultiParser \<longrightarrow>
           KString \<in> set (mType m) \<or> (KNumber \<in> set (mType m) \<and> \<not> isNaN ops (toNumber ops v))"
  shows "p v (JArr xs, False) = Inr (JArr (xs @ [parsedValue ops (mType m) v]), False)"
  using assms
  by (auto simp: attachedParser_def parsedValue_def numberArgParser_def stringArgParser_def
      multiArgParser_def dropDefault_def defaultPrev_def accumulate_def bind_def Let_def
      split: parserKind.splits)

lemma attached_all:
  assumes "mMultiple m" "attachedParser ops m = Some p"
    and "parserFor (mType m) = MultiParser \<longrightarrow>
           KString \<in> set (mType m) \<or> (KNumber \<in> set (mType m) \<and> (\<forall>v\<in>set vs. \<not> isNaN ops (toNumber ops v)))"
  shows "parseAll p vs (JArr xs, False) = Inr (JArr (xs @ map (parsedValue ops (mType m)) vs), False)"
  using assms(3)
proof (induction vs arbitrary: xs)
  case Nil
  then show ?case by simp
next
  case (Cons v vs)
  have s: "p v (JArr xs, False) = Inr (JArr (xs @ [parsedValue ops (mType m) v]), False)"
    using attached_step[OF assms(1,2), of v xs] Cons.prems by auto
  have "parseAll p vs (JArr (xs @ [parsedValue ops (mType m) v]), False) =
      Inr (JArr ((xs @ [parsedValue ops (mType m) v]) @ map (parsedValue ops (mType m)) vs), False)"
    using Cons.IH[of "xs @ [parsedValue ops (mType m) v]"] Cons.prems by auto
  then show ?case using s by (simp add: bind_def)
qed


lemma mainOf_fields:
  "mType (mainOf option) = kindsOf option"
  "mMultiple (mainOf option) = multiple option"
  "mDefaultValue (mainOf option) = defaultValue option"
proof -
  obtain nd ty where "compileMain (withAlias option) =
     (\<lparr> mFlags = baseFlags (withAlias option),
        mValueName = orElse (valueName (withAlias option)) ''value'',
        mDescription = orElse (description (withAlias option)) [], mType = ty,
        mMultiple = multiple (withAlias option),
        mDefaultValue = defaultValue (withAlias option) \<rparr>,
      if wantsNegative (withAlias option) then Some (negativeFor (withAlias option) nd) else None)"
    using compileMain_shape[of "withAlias option"] by blast
  then show "mType (mainOf option) = kindsOf option"
    "mMultiple (mainOf option) = multiple option"
    "mDefaultValue (mainOf option) = defaultValue option"
    by (simp_all add: mainOf_def kindsOf_def Let_def withAlias_fields)
qed

lemma kindsOf_distinct: "distinct (kindsOf option)"
  using compileMain_shape[of "withAlias option"] by (auto simp: kindsOf_def)

lemma numberStringFlag_main:
  "mainOf numberStringFlag =
     \<lparr> mFlags = ''--port <value...>'', mValueName = ''value'', mDescription = [],
       mType = [KNumber, KString], mMultiple = True, mDefaultValue = JArr [JNum (Some 9)] \<rparr>"
  by (simp add: mainOf_def compileMain_def withAlias_def numberStringFlag_def flagsWithAlias_def
      setAdd_def baseFlags_def strTruthy_def orElse_def placeholder_def Let_def)

lemma booleanNumberFlag_main:
  "mainOf booleanNumberFlag =
     \<lparr> mFlags = ''--limit [value...]'', mValueName = ''value'', mDescription = [],
       mType = [KBoolean, KNumber], mMultiple = True, mDefaultValue = JArr [JNum (Some 9)] \<rparr>"
  by (simp add: mainOf_def compileMain_def withAlias_def booleanNumberFlag_def flagsWithAlias_def
      setAdd_def baseFlags_def strTruthy_def orElse_def placeholder_def Let_def)

lemma anyValueFlag_main:
  "mainOf anyValueFlag =
     \<lparr> mFlags = ''--open [value...]'', mValueName = ''value'', mDescription = [],
       mType = [KBoolean, KNumber, KString], mMultiple = True, mDefaultValue = JUndefined \<rparr>"
  by (simp add: mainOf_def compileMain_def withAlias_def anyValueFlag_def flagsWithAlias_def
      setAdd_def baseFlags_def strTruthy_def orElse_def placeholder_def Let_def)

lemma zeroDefaultFlag_main:
  "mainOf zeroDefaultFlag =
     \<lparr> mFlags = ''--port <value...>'', mValueName = ''value'', mDescription = [],
       mType = [KNumber, KString], mMultiple = True, mDefaultValue = JNum (Some 0) \<rparr>"
  by (simp add: mainOf_def compileMain_def withAlias_def zeroDefaultFlag_def flagsWithAlias_def
      setAdd_def baseFlags_def strTruthy_def orElse_def placeholder_def Let_def)

lemma decimal_examples: "decimal ''abc'' = None" "decimal ''5'' = Some 5"
  by (simp_all add: decimal_def isDigit_def)

text \<open>
  For a repeatable flag with a truthy default, the first occurrence on the command
  line behaves under each of the three closures as if the stored value were the empty
  sequence, so the default takes no part in the result.
\<close>

lemma default_discarded:
  fixes option :: "'n builtInOption"
  assumes "multiple option"
      and "truthy ops (defaultValue option)"
      and "attachedParser ops (mainOf option) = Some p"
      and "vs \<noteq> []"
  shows "parseAll p vs (defaultValue option, True) = parseAll p vs (JArr [], False)"
proof -
  obtain v ws where vs: "vs = v # ws" using assms(4) by (cases vs) auto
  have m: "mMultiple (mainOf option)" "truthy ops (mDefaultValue (mainOf option))"
    using assms(1,2) by (simp_all add: mainOf_fields)
  have "p v (defaultValue option, True) = p v (JArr [], False)"
    using attached_first[OF m assms(3), of v] by (simp add: mainOf_fields)
  then show ?thesis by (simp add: vs)
qed

text \<open>
  With the number parser, the string parser, or the combined parser when the kind set
  holds string or every value is numeric, the stored value after the occurrences is
  the sequence of the parsed values, in order.
\<close>

lemma accumulated_in_order:
  fixes option :: "'n builtInOption"
  assumes "multiple option"
      and "truthy ops (defaultValue option)"
      and "attachedParser ops (mainOf option) = Some p"
      and "vs \<noteq> []"
      and "parserFor (kindsOf option) = MultiParser \<longrightarrow>
             KString \<in> set (kindsOf option)
             \<or> (KNumber \<in> set (kindsOf option) \<and> (\<forall>v\<in>set vs. \<not> isNaN ops (toNumber ops v)))"
  shows "parseOccurrences p (mainOf option) vs =
            Inr (JArr (map (parsedValue ops (kindsOf option)) vs))"
proof -
  have m: "mMultiple (mainOf option)"
    using assms(1) by (simp add: mainOf_fields)
  have a: "parseAll p vs (defaultValue option, True) = parseAll p vs (JArr [], False)"
    by (rule default_discarded[OF assms(1-4)])
  have "parseAll p vs (JArr [], False) =
      Inr (JArr ([] @ map (parsedValue ops (mType (mainOf option))) vs), False)"
    by (rule attached_all[OF m assms(3)]) (use assms(5) in \<open>simp add: mainOf_fields\<close>)
  then show ?thesis
    using a by (simp add: parseOccurrences_def mainOf_fields bind_def)
qed

lemma number_string_accumulated:
  "parseOccurrences (multiArgParser decimalOps (mainOf numberStringFlag)) (mainOf numberStringFlag)
     [''abc'', ''5''] = Inr (JArr [JStr ''abc'', JNum (Some 5)])"
proof -
  have k: "kindsOf numberStringFlag = [KNumber, KString]"
    using mainOf_fields(1)[of numberStringFlag] by (simp add: numberStringFlag_main)
  have a: "attachedParser decimalOps (mainOf numberStringFlag) =
      Some (multiArgParser decimalOps (mainOf numberStringFlag))"
    by (simp add: attachedParser_def numberStringFlag_main parserFor_def)
  have h1: "multiple numberStringFlag" by (simp add: numberStringFlag_def)
  have h2: "truthy decimalOps (defaultValue numberStringFlag)" by (simp add: numberStringFlag_def)
  have h4: "[''abc'', ''5''] \<noteq> []" by simp
  have h5: "parserFor (kindsOf numberStringFlag) = MultiParser \<longrightarrow>
             KString \<in> set (kindsOf numberStringFlag)
             \<or> (KNumber \<in> set (kindsOf numberStringFlag)
                \<and> (\<forall>v\<in>set [''abc'', ''5'']. \<not> isNaN decimalOps (toNumber decimalOps v)))"
    by (simp add: k)
  have "parseOccurrences (multiArgParser decimalOps (mainOf numberStringFlag))
      (mainOf numberStringFlag) [''abc'', ''5''] =
        Inr (JArr (map (parsedValue decimalOps (kindsOf numberStringFlag)) [''abc'', ''5'']))"
    by (rule accumulated_in_order[OF h1 h2 a h4 h5])
  then show ?thesis
    by (simp add: k parsedValue_def parserFor_def decimalOps_def decimal_examples)
qed

text \<open>
  Claim C4, at a repeatable flag of kinds boolean and number with the default
  \<open>[9]\<close>, given \<open>--limit abc --limit 5\<close>.  The flag has the combined closure.  The
  default is discarded on the first occurrence, but \<open>abc\<close> is not numeric and the
  kind set has no string, so the closure reaches its last \<open>return value\<close>, which
  hands the raw string back without looking at \<open>multiple\<close>; the number branch and
  the string branch of the same closure append to the stored sequence.  The second
  occurrence then spreads the stored string into its characters: the stored value
  ends as \<open>[a, b, c, 5]\<close>, where the claim has the two supplied values in order.
\<close>

theorem boolean_number_not_accumulated:
  "multiple booleanNumberFlag \<and> truthy decimalOps (defaultValue booleanNumberFlag)
   \<and> attachedParser decimalOps (mainOf booleanNumberFlag) =
        Some (multiArgParser decimalOps (mainOf booleanNumberFlag))
   \<and> multiArgParser decimalOps (mainOf booleanNumberFlag) ''abc'' (defaultValue booleanNumberFlag, True)
      = Inr (JStr ''abc'', False)
   \<and> parseOccurrences (multiArgParser decimalOps (mainOf booleanNumberFlag))
        (mainOf booleanNumberFlag) [''abc'', ''5'']
      = Inr (JArr [JStr ''a'', JStr ''b'', JStr ''c'', JNum (Some 5)])"
  by (simp add: booleanNumberFlag_main attachedParser_def parserFor_def parseOccurrences_def
      multiArgParser_def dropDefault_def defaultPrev_def accumulate_def bind_def Let_def
      decimalOps_def decimal_examples)
    (simp add: booleanNumberFlag_def)

text \<open>
  Claim C8, as the code has it.  A flag whose kind set holds number and string gets
  the combined parser.  It converts the raw value with \<open>Number\<close>; the parsed value is
  that number unless it is \<open>NaN\<close>, and the raw string otherwise, and nothing is
  reported for a failed conversion.  A flag that is not repeatable stores the parsed
  value.  A repeatable flag appends it to the spread of the stored value, which is the
  empty sequence when a truthy default is still to be skipped or nothing is stored;
  the spread, and with it the parser, throws a \<open>TypeError\<close> when the stored value
  is neither an array nor a string.
\<close>

theorem number_then_string:
  fixes option :: "'n builtInOption"
  assumes "KNumber \<in> set (kindsOf option)"
      and "KString \<in> set (kindsOf option)"
  shows "attachedParser ops (mainOf option) = Some (multiArgParser ops (mainOf option))
       \<and> multiArgParser ops (mainOf option) value (prev, skipDefault) =
           (if multiple option
            then bind (spread (if truthy ops (defaultValue option) \<and> skipDefault then JArr []
                               else if prev = JUndefined then JArr [] else prev))
                      (\<lambda>xs. Inr (JArr (xs @ [coerce ops value]),
                                  skipDefault \<and> \<not> truthy ops (defaultValue option)))
            else Inr (coerce ops value, skipDefault))"
proof -
  have "\<exists>a\<in>set (kindsOf option). \<exists>b\<in>set (kindsOf option). a \<noteq> b"
    using assms(1,2) by blast
  then have "1 < length (kindsOf option)" using two_kinds[OF kindsOf_distinct] by blast
  then have a: "attachedParser ops (mainOf option) = Some (multiArgParser ops (mainOf option))"
    by (simp add: attachedParser_def parserFor_def mainOf_fields)
  have b: "multiArgParser ops (mainOf option) value (prev, skipDefault) =
           (if multiple option
            then bind (spread (if truthy ops (defaultValue option) \<and> skipDefault then JArr []
                               else if prev = JUndefined then JArr [] else prev))
                      (\<lambda>xs. Inr (JArr (xs @ [coerce ops value]),
                                  skipDefault \<and> \<not> truthy ops (defaultValue option)))
            else Inr (coerce ops value, skipDefault))"
    using assms
    by (auto simp: multiArgParser_def mainOf_fields dropDefault_def defaultPrev_def
        accumulate_def bind_def coerce_def Let_def split: sum.splits)
  show ?thesis using a b by simp
qed

theorem number_then_string_witness:
  "multiArgParser decimalOps (mainOf numberStringFlag) ''5'' (JArr [JStr ''x''], False)
     = Inr (JArr [JStr ''x'', JNum (Some 5)], False)
   \<and> multiArgParser decimalOps (mainOf numberStringFlag) ''abc'' (JUndefined, True)
     = Inr (JArr [JStr ''abc''], False)"
proof -
  have k: "kindsOf numberStringFlag = [KNumber, KString]"
    using mainOf_fields(1)[of numberStringFlag] by (simp add: numberStringFlag_main)
  have n: "KNumber \<in> set (kindsOf numberStringFlag)" and s: "KString \<in> set (kindsOf numberStringFlag)"
    by (simp_all add: k)
  have f: "multiple numberStringFlag" "defaultValue numberStringFlag = JArr [JNum (Some 9)]"
    by (simp_all add: numberStringFlag_def)
  have c: "coerce decimalOps ''5'' = JNum (Some 5)" "coerce decimalOps ''abc'' = JStr ''abc''"
    by (simp_all add: coerce_def decimalOps_def decimal_examples)
  show ?thesis
    using number_then_string[OF n s, of decimalOps "''5''" "JArr [JStr ''x'']" False]
      number_then_string[OF n s, of decimalOps "''abc''" JUndefined True]
    by (simp add: f c bind_def)
qed

text \<open>
  Claim C8 as stated fails for a repeatable flag whose stored value cannot be spread.
  The flag \<open>--open [value...]\<close> of kinds boolean, number and string stores \<open>true\<close>
  when it is given without a value; at its next occurrence \<open>--open 5\<close> the closure
  throws at \<open>[...prev, 5]\<close>.  The same happens at the first occurrence of a
  repeatable flag of kinds number and string whose default is \<open>0\<close>.
\<close>

theorem stored_value_not_spread:
  "KNumber \<in> set (kindsOf anyValueFlag) \<and> KString \<in> set (kindsOf anyValueFlag)
   \<and> multiArgParser decimalOps (mainOf anyValueFlag) ''5'' (JBool True, True) = Inl TypeError
   \<and> KNumber \<in> set (kindsOf zeroDefaultFlag) \<and> KString \<in> set (kindsOf zeroDefaultFlag)
   \<and> parseOccurrences (multiArgParser decimalOps (mainOf zeroDefaultFlag)) (mainOf zeroDefaultFlag)
        [''5''] = Inl TypeError"
proof -
  have k: "kindsOf anyValueFlag = [KBoolean, KNumber, KString]"
    using mainOf_fields(1)[of anyValueFlag] by (simp add: anyValueFlag_main)
  have z: "kindsOf zeroDefaultFlag = [KNumber, KString]"
    using mainOf_fields(1)[of zeroDefaultFlag] by (simp add: zeroDefaultFlag_main)
  have a: "multiArgParser decimalOps (mainOf anyValueFlag) ''5'' (JBool True, True) = Inl TypeError"
    by (simp add: anyValueFlag_main multiArgParser_def dropDefault_def defaultPrev_def
        accumulate_def bind_def Let_def decimalOps_def decimal_examples)
  have b: "parseOccurrences (multiArgParser decimalOps (mainOf zeroDefaultFlag))
      (mainOf zeroDefaultFlag) [''5''] = Inl TypeError"
    by (simp add: zeroDefaultFlag_main parseOccurrences_def multiArgParser_def dropDefault_def
        defaultPrev_def accumulate_def bind_def Let_def decimalOps_def decimal_examples)
  show ?thesis using a b by (simp add: k z)
qed

section \<open>Properties of the loader\<close>

lemma mergeObjects_empty: "mergeObjects [] y = y"
  by (simp add: mergeObjects_def)

lemma map_of_mergeFields:
  "map_of (mergeFields x y) k =
     (case map_of x k of None \<Rightarrow> None
      | Some v \<Rightarrow> (case map_of y k of None \<Rightarrow> Some v | Some w \<Rightarrow> Some (mergeValue v w)))"
  by (induction x) (auto split: option.splits)

lemma map_of_filter_absent:
  "map_of (filter (\<lambda>kv. map_of x (fst kv) = None) y) k = (if map_of x k = None then map_of y k else None)"
  by (induction y) auto

lemma map_of_mergeObjects:
  "map_of (mergeObjects x y) k =
     (case map_of y k of
        None \<Rightarrow> map_of x k
      | Some w \<Rightarrow> (case map_of x k of None \<Rightarrow> Some w | Some v \<Rightarrow> Some (mergeValue v w)))"
  by (simp add: mergeObjects_def map_add_def map_of_mergeFields map_of_filter_absent
      split: option.splits)

lemma mergeReduce_props:
  "mergeReduce led cs (acc, ps, fr) = (m, ps', fr') \<Longrightarrow>
   props m = foldl mergeObjects (props acc) (map props cs)
   \<and> ps' = ps @ concat (map (\<lambda>c. case led (ident c) of None \<Rightarrow> [] | Some p \<Rightarrow> p) cs)"
proof (induction cs arbitrary: acc ps fr)
  case Nil
  then show ?case by simp
next
  case (Cons c cs)
  have "mergeReduce led cs (merge fr acc [c],
      ps @ (case led (ident c) of None \<Rightarrow> [] | Some p \<Rightarrow> p), fr + 1) = (m, ps', fr')"
    using Cons.prems by simp
  from Cons.IH[OF this] show ?case by (simp add: merge_def)
qed


text \<open>
  Claim C5.  With \<open>--merge\<close>, two or more configurations are reduced from left to
  right: the merged object is the pairwise fold of the deep merge over the operands in
  input order, and its ledger entry is the concatenation of theirs.  In the deep
  merge a key present on both sides is merged recursively when both values are
  mappings, concatenated in input order when both are sequences, and takes the later
  operand's value otherwise; a key present on one side keeps that value.
\<close>

theorem merge_left_fold:
  fixes cfg :: "'n webpackCLIConfig"
  assumes "options cfg = Many a (first # second # rest)"
  shows "\<exists>result merged.
           mergeAll cfg = Inr result \<and> options result = Single merged
         \<and> props merged = foldl mergeObjects (props first) (map props (second # rest))
         \<and> path result (ident merged) =
             Some (concat (map (\<lambda>c. case path cfg (ident c) of None \<Rightarrow> [] | Some p \<Rightarrow> p)
                            (first # second # rest)))
         \<and> (\<forall>x y k. map_of (mergeObjects x y) k =
               (case map_of y k of
                  None \<Rightarrow> map_of x k
                | Some w \<Rightarrow> (case map_of x k of None \<Rightarrow> Some w
                              | Some v \<Rightarrow> Some (mergeValue v w :: 'n jsv))))
         \<and> (\<forall>x y. mergeValue (JObj x) (JObj y) = (JObj (mergeObjects x y) :: 'n jsv))
         \<and> (\<forall>x y. mergeValue (JArr x) (JArr y) = (JArr (x @ y) :: 'n jsv))
         \<and> (\<forall>v w. \<not> ((\<exists>x. v = JArr x) \<and> (\<exists>y. w = JArr y)) \<longrightarrow>
                    \<not> ((\<exists>x. v = JObj x) \<and> (\<exists>y. w = JObj y)) \<longrightarrow>
                    mergeValue v w = (w :: 'n jsv))"
    (is "\<exists>result merged. ?A result \<and> ?B result merged \<and> ?C merged \<and> ?D result merged \<and> ?E \<and> ?F \<and> ?G \<and> ?H")
proof -
  let ?cs = "first # second # rest"
  obtain m ps fr where r: "mergeReduce (path cfg) ?cs
      (\<lparr> ident = Allocated (fresh cfg), props = [] \<rparr>, [], fresh cfg + 1) = (m, ps, fr)"
    by (cases "mergeReduce (path cfg) ?cs
      (\<lparr> ident = Allocated (fresh cfg), props = [] \<rparr>, [], fresh cfg + 1)") auto
  define result :: "'n webpackCLIConfig" where
    "result = \<lparr> options = Single m, path = (path cfg)(ident m \<mapsto> ps), fresh = fr \<rparr>"
  have A: "mergeAll cfg = Inr result" using assms r by (simp add: mergeAll_def result_def)
  have B: "options result = Single m" by (simp add: result_def)
  from mergeReduce_props[OF r]
  have C: "props m = foldl mergeObjects (props first) (map props (second # rest))"
    and ps: "ps = concat (map (\<lambda>c. case path cfg (ident c) of None \<Rightarrow> [] | Some p \<Rightarrow> p) ?cs)"
    by (simp_all add: mergeObjects_empty)
  have D: "path result (ident m) =
             Some (concat (map (\<lambda>c. case path cfg (ident c) of None \<Rightarrow> [] | Some p \<Rightarrow> p) ?cs))"
    using ps by (simp add: result_def)
  have E: ?E using map_of_mergeObjects by blast
  have F: ?F by (simp add: mergeObjects_def)
  have G: ?G by simp
  have H: ?H
  proof (intro allI impI)
    fix v w :: "'n jsv"
    assume "\<not> ((\<exists>x. v = JArr x) \<and> (\<exists>y. w = JArr y))" "\<not> ((\<exists>x. v = JObj x) \<and> (\<exists>y. w = JObj y))"
    then show "mergeValue v w = w" by (cases v; cases w) auto
  qed
  show ?thesis
    by (rule exI[of _ result], rule exI[of _ m]) (intro conjI A B C D E F G H)
qed

theorem merge_left_fold_witness:
  "\<exists>result merged. mergeAll pluginConfigs = Inr result \<and> options result = Single merged
     \<and> props merged = [(''plugins'', JArr [JStr ''P1'', JStr ''P2''])]
     \<and> path result (ident merged) = Some [''/1.js'', ''/2.js'']"
proof -
  have o: "options pluginConfigs = Many (Allocated 1)
         (\<lparr> ident = FileObject 1, props = [(''plugins'', JArr [JStr ''P1''])] \<rparr> #
          \<lparr> ident = FileObject 2, props = [(''plugins'', JArr [JStr ''P2''])] \<rparr> # [])"
    by (simp add: pluginConfigs_def)
  from merge_left_fold[OF o] obtain result merged where
    "mergeAll pluginConfigs = Inr result" "options result = Single merged"
    "props merged = foldl mergeObjects [(''plugins'', JArr [JStr ''P1''])]
        (map props [\<lparr> ident = FileObject 2, props = [(''plugins'', JArr [JStr ''P2''])] \<rparr>])"
    "path result (ident merged) = Some (concat (map (\<lambda>c. case path pluginConfigs (ident c) of None \<Rightarrow> [] | Some p \<Rightarrow> p)
        [\<lparr> ident = FileObject 1, props = [(''plugins'', JArr [JStr ''P1''])] \<rparr>,
         \<lparr> ident = FileObject 2, props = [(''plugins'', JArr [JStr ''P2''])] \<rparr>]))"
    by auto
  then show ?thesis by (auto simp: mergeObjects_def pluginConfigs_def)
qed

text \<open>
  Claim C1 at two explicit paths, the first exporting an array: the item taken from
  the array ends up in \<open>config.options\<close> with no ledger entry, because the loop
  writes the entry under the \<open>options\<close> argument instead of the item.
\<close>

theorem flattened_array_item_unrecorded:
  "(case loadConfig 1 arrayWorld twoPaths of
      Some (Inr cfg) \<Rightarrow>
        options cfg = Many (Allocated 1) [firstConfig, secondConfig]
        \<and> path cfg (ident firstConfig) = None
        \<and> path cfg OptionsObject = Some [''/a.js'']
        \<and> path cfg (ident secondConfig) = Some [''/b.js'']
    | _ \<Rightarrow> False)"
  by (simp add: loadConfig_def loadExplicit_def resolveAllExtends_def twoPaths_def arrayWorld_def
      bind_def firstConfig_def secondConfig_def extendsOf_def unitOps_def)

subsection \<open>Cycle detection in \<open>resolveExtends\<close>\<close>





















text \<open>The scenario of two files extending each other, through \<open>loadConfig\<close>.\<close>

lemma extends_cycle_scenario:
  "loadConfig 2 cycleWorld onePath = Some (Inl RecursiveConfiguration)"
  by (simp add: loadConfig_def loadExplicit_def resolveAllExtends_def resolveOne_def onePath_def
      cycleWorld_def bind_def keyOf_def extendsOf_def unitOps_def extendsStep_def itemsOf_def
      merge_def mergeObjects_def Let_def numeral_2_eq_2 cached_def withoutExtends_def)

text \<open>
  With both files given as configurations, each element has lost its \<open>extends\<close>
  before the other one loads it, so each is merged with the other once and no cycle
  is reported.
\<close>

lemma extends_cycle_both_given:
  "loadConfig 2 cycleWorld bothPaths =
     Some (Inr \<lparr> options = Many (Allocated 4)
                   [\<lparr> ident = Allocated 2, props = [] \<rparr>, \<lparr> ident = Allocated 3, props = [] \<rparr>],
                 path = [FileObject 1 \<mapsto> [''/a.js''], FileObject 2 \<mapsto> [''/b.js''],
                         Allocated 2 \<mapsto> [''/a.js'', ''/b.js''],
                         Allocated 3 \<mapsto> [''/b.js'', ''/a.js'']],
                 fresh = 5 \<rparr>)"
  by (simp add: loadConfig_def loadExplicit_def resolveAllExtends_def resolveOne_def bothPaths_def
      cycleWorld_def bind_def keyOf_def extendsOf_def unitOps_def extendsStep_def itemsOf_def
      merge_def mergeObjects_def Let_def numeral_2_eq_2 numeral_3_eq_3 cached_def
      withoutExtends_def startsCall_def)


section \<open>Properties of applying the command-line values\<close>

lemma coreArgs_keys_aux:
  "fst ` set (foldl (\<lambda>accumulator flag.
              if group flag = Some ''core'' then AList.update (name flag) flag accumulator
              else accumulator) acc flags) \<subseteq> fst ` set acc \<union> name ` set flags"
proof (induction flags arbitrary: acc)
  case Nil
  then show ?case by simp
next
  case (Cons f fs)
  show ?case using Cons.IH[of "if group f = Some ''core'' then AList.update (name f) f acc else acc"]
    by (auto simp: dom_update split: if_splits)
qed

lemma coreArgs_known: "map_of (coreArgs flags) k \<noteq> None \<Longrightarrow> k \<in> name ` set flags"
proof -
  assume "map_of (coreArgs flags) k \<noteq> None"
  then have "k \<in> fst ` set (coreArgs flags)" by (simp add: map_of_eq_None_iff)
  then show ?thesis using coreArgs_keys_aux[of "[]" flags] by (auto simp: coreArgs_def)
qed

lemma toLower_not_upper: "\<not> isUpper (toLower c)"
  by (auto simp: toLower_def isUpper_def split: option.splits if_splits)

lemma toKebabCase_lower: "c \<in> set (toKebabCase str) \<Longrightarrow> \<not> isUpper c"
  by (auto simp: toKebabCase_def toLower_not_upper)

lemma inherited_kebab:
  assumes "toKebabCase nm \<in> set objectPrototype"
  shows "toKebabCase nm = ''constructor'' \<or> toKebabCase nm = ''__proto__''"
proof -
  have l: "\<forall>c\<in>set (toKebabCase nm). \<not> isUpper c" using toKebabCase_lower by blast
  have "\<not> isUpper (CHR ''G'')" if "toKebabCase nm = ''__defineGetter__''"
    using l that by simp
  moreover have "\<not> isUpper (CHR ''S'')" if "toKebabCase nm = ''__defineSetter__''"
    using l that by simp
  moreover have "\<not> isUpper (CHR ''O'')" if "toKebabCase nm = ''hasOwnProperty''"
    using l that by simp
  moreover have "\<not> isUpper (CHR ''G'')" if "toKebabCase nm = ''__lookupGetter__''"
    using l that by simp
  moreover have "\<not> isUpper (CHR ''S'')" if "toKebabCase nm = ''__lookupSetter__''"
    using l that by simp
  moreover have "\<not> isUpper (CHR ''P'')" if "toKebabCase nm = ''isPrototypeOf''"
    using l that by simp
  moreover have "\<not> isUpper (CHR ''I'')" if "toKebabCase nm = ''propertyIsEnumerable''"
    using l that by simp
  moreover have "\<not> isUpper (CHR ''S'')" if "toKebabCase nm = ''toString''"
    using l that by simp
  moreover have "\<not> isUpper (CHR ''O'')" if "toKebabCase nm = ''valueOf''"
    using l that by simp
  moreover have "\<not> isUpper (CHR ''L'')" if "toKebabCase nm = ''toLocaleString''"
    using l that by simp
  ultimately show ?thesis using assms by (auto simp: objectPrototype_def isUpper_def)
qed

lemma collect_skip:
  assumes "map_of args (toKebabCase nm) = None" and "toKebabCase nm \<noteq> ''constructor''"
  shows "foldl (valueStep args) acc (before @ (nm, v) # after) = foldl (valueStep args) acc (before @ after)"
  using assms inherited_kebab[of nm] by (auto simp: valueStep_def Let_def)

lemma collect_keys:
  "fst ` set (foldl (valueStep args) acc opts)
     \<subseteq> fst ` set acc \<union> {k. map_of args k \<noteq> None} \<union> {''constructor''}"
proof (induction opts arbitrary: acc)
  case Nil
  then show ?case by auto
next
  case (Cons nv opts)
  have "fst ` set (valueStep args acc nv)
      \<subseteq> fst ` set acc \<union> {k. map_of args k \<noteq> None} \<union> {''constructor''}"
    using inherited_kebab[of "fst nv"]
    by (auto simp: valueStep_def Let_def dom_update split: if_splits)
  moreover have "fst ` set (foldl (valueStep args) (valueStep args acc nv) opts)
      \<subseteq> fst ` set (valueStep args acc nv) \<union> {k. map_of args k \<noteq> None} \<union> {''constructor''}"
    by (rule Cons.IH)
  ultimately have "fst ` set (foldl (valueStep args) (valueStep args acc nv) opts)
      \<subseteq> fst ` set acc \<union> {k. map_of args k \<noteq> None} \<union> {''constructor''}"
    by blast
  then show ?case by simp
qed

lemma exampleSchema_names: "name ` set exampleSchema = {''progress'', ''mode''}"
  by (auto simp: exampleSchema_def progressFlag_def modeFlag_def)

lemma kebab_fooBar: "toKebabCase ''fooBar'' = ''foo-bar''"
  by (simp add: toKebabCase_def toLower_def isUpper_def isLowerOrDigit_def)

lemma kebab_constructor: "toKebabCase ''constructor'' = ''constructor''"
  by (simp add: toKebabCase_def toLower_def isUpper_def isLowerOrDigit_def)

lemma coreArgs_exampleSchema: "coreArgs exampleSchema = [(''mode'', modeFlag)]"
  by (simp add: coreArgs_def exampleSchema_def progressFlag_def modeFlag_def)

text \<open>
  Claim C6, as the code has it.  A command-line value whose kebab-cased name is the
  name of no flag of the built-in schema, and is not \<open>constructor\<close>, is not among
  the values handed to \<open>processArguments\<close>; whatever that processor does, the outcome
  (the problems or the configuration) is the same with and without the entry; and
  when it is the only entry the processor is not called at all, so there are no
  problems and the configuration is returned as it was.
\<close>

theorem unknown_flag_filtered:
  assumes "toKebabCase nm \<notin> name ` set flags"
      and "toKebabCase nm \<noteq> ''constructor''"
  shows "map_of (collectValues (coreArgs flags) opts) (toKebabCase nm) = None
       \<and> applyOptions processArguments flags (before @ (nm, v) # after) item
           = applyOptions processArguments flags (before @ after) item
       \<and> applyOptions processArguments flags [(nm, v)] item = Inr item"
proof -
  have u: "map_of (coreArgs flags) (toKebabCase nm) = None"
    using assms(1) coreArgs_known[of flags "toKebabCase nm"] by blast
  have "toKebabCase nm \<notin> fst ` set (collectValues (coreArgs flags) opts)"
    using collect_keys[of "coreArgs flags" "[]" opts] u assms(2) by (auto simp: collectValues_def)
  then have a: "map_of (collectValues (coreArgs flags) opts) (toKebabCase nm) = None"
    by (simp add: map_of_eq_None_iff)
  have c: "collectValues (coreArgs flags) (before @ (nm, v) # after)
      = collectValues (coreArgs flags) (before @ after)"
    unfolding collectValues_def by (rule collect_skip[OF u assms(2)])
  have b: "applyOptions processArguments flags (before @ (nm, v) # after) item
           = applyOptions processArguments flags (before @ after) item"
    by (simp only: applyOptions_def Let_def c)
  have "collectValues (coreArgs flags) [(nm, v)] = []"
    using collect_skip[OF u assms(2), of "[]" "[]" v "[]"] by (simp add: collectValues_def)
  then have d: "applyOptions processArguments flags [(nm, v)] item = Inr item"
    by (simp add: applyOptions_def)
  show ?thesis using a b d by blast
qed

theorem unknown_flag_filtered_witness:
  "applyOptions (\<lambda>args item values. (None, values @ item)) exampleSchema
      [(''mode'', JStr ''development''), (''fooBar'', JStr ''y'')] [(''entry'', JStr ''./a.js'')]
    = applyOptions (\<lambda>args item values. (None, values @ item)) exampleSchema
      [(''mode'', JStr ''development'')] [(''entry'', JStr ''./a.js'')]
   \<and> applyOptions (\<lambda>args item values. (None, values @ item)) exampleSchema
      [(''fooBar'', JStr ''y'')] [(''entry'', JStr ''./a.js'')]
    = Inr [(''entry'', JStr ''./a.js'')]"
proof -
  have h: "toKebabCase ''fooBar'' \<notin> name ` set exampleSchema"
    by (simp add: exampleSchema_names kebab_fooBar)
  have n: "toKebabCase ''fooBar'' \<noteq> ''constructor''"
    by (simp add: kebab_fooBar)
  show ?thesis
    using unknown_flag_filtered[OF h n, of "[]" "\<lambda>args item values. (None, values @ item)"
        "[(''mode'', JStr ''development'')]" "JStr ''y''" "[]" "[(''entry'', JStr ''./a.js'')]"]
    by simp
qed

text \<open>
  Claim C6 as stated fails for the name \<open>constructor\<close>.  No flag has that name, but
  \<open>args["constructor"]\<close> is the function every plain object inherits, so the entry
  passes the test and is handed to \<open>processArguments\<close>, here to a processor that
  puts the values it is given in front of the configuration.
\<close>

theorem constructor_not_filtered:
  "toKebabCase ''constructor'' \<notin> name ` set exampleSchema
   \<and> collectValues (coreArgs exampleSchema) [(''constructor'', JStr ''x'')]
        = [(''constructor'', JStr ''x'')]
   \<and> applyOptions (\<lambda>args item values. (None, values @ item)) exampleSchema
        [(''constructor'', JStr ''x'')] [(''entry'', JStr ''./a.js'')]
      = Inr [(''constructor'', JStr ''x''), (''entry'', JStr ''./a.js'')]"
proof -
  have c: "collectValues (coreArgs exampleSchema) [(''constructor'', JStr ''x'')]
        = [(''constructor'', JStr ''x'')]"
    by (simp add: collectValues_def valueStep_def kebab_constructor coreArgs_exampleSchema
        objectPrototype_def)
  then show ?thesis
    by (simp add: applyOptions_def exampleSchema_names kebab_constructor)
qed

section \<open>Properties of \<open>makeCommand\<close>\<close>

lemma find_Some_iff_ex: "(find P xs \<noteq> None) = (\<exists>x\<in>set xs. P x)"
  by (induction xs) auto

lemma makeCommand_same_name:
  assumes "\<exists>c\<in>set (commands prog). cName c = firstWord (cmdName commandOptions)"
  shows "makeCommand env prog commandOptions opts = Inr prog"
proof -
  have "alreadyLoaded prog commandOptions \<noteq> None"
    unfolding alreadyLoaded_def find_Some_iff_ex using assms by blast
  then show ?thesis by (simp add: makeCommand_def)
qed

lemma makeCommand_same_alias:
  assumes "cmdAlias commandOptions = OneAlias a"
      and "\<exists>c\<in>set (commands prog). a \<in> set (cAliases c)"
  shows "makeCommand env prog commandOptions opts = Inr prog"
proof -
  have "alreadyLoaded prog commandOptions \<noteq> None"
    unfolding alreadyLoaded_def find_Some_iff_ex using assms by auto
  then show ?thesis by (simp add: makeCommand_def)
qed

lemma commanderName_firstWord:
  assumes "s \<noteq> []" and "hd s \<noteq> CHR '' ''"
  shows "commanderName s = Inr (firstWord s)"
  using assms by (cases s) (simp_all add: commanderName_def firstWord_def)

lemma makeCommand_twice:
  assumes "cmdName commandOptions \<noteq> []" and "hd (cmdName commandOptions) \<noteq> CHR '' ''"
      and "makeCommand env prog commandOptions opts = Inr prog'"
  shows "makeCommand env prog' commandOptions opts' = Inr prog'"
proof (cases "alreadyLoaded prog commandOptions \<noteq> None")
  case True
  then have "prog' = prog" using assms(3) by (simp add: makeCommand_def)
  then show ?thesis using True by (simp add: makeCommand_def)
next
  case False
  have n: "commanderName (cmdName commandOptions) = Inr (firstWord (cmdName commandOptions))"
    using commanderName_firstWord[OF assms(1,2)] .
  have "\<exists>c. commands prog' = commands prog @ [c] \<and> cName c = firstWord (cmdName commandOptions)"
    using assms(3) False n
    by (auto simp: makeCommand_def bind_def Let_def split: sum.splits)
  then have "\<exists>c\<in>set (commands prog'). cName c = firstWord (cmdName commandOptions)" by auto
  then show ?thesis by (rule makeCommand_same_name)
qed

text \<open>
  Claim C9 at a command whose alias is given as an array.  With \<open>build\<close> registered
  under the aliases \<open>bundle\<close> and \<open>b\<close>, a command \<open>bench\<close> with the alias array
  \<open>["b"]\<close> is not recognised as loaded: \<open>includes\<close> is asked for the array itself,
  which no alias string equals, so the command is added to the table.  (A command of
  the same name, or one with the string alias \<open>b\<close>, is passed over, as the lemmas
  above show.)
\<close>

theorem array_alias_registered_again:
  "bind (makeCommand allInstalled emptyProgram buildCommandOptions (Some (Static [])))
     (\<lambda>p. makeCommand allInstalled p benchCommandOptions None)
   = Inr \<lparr> commands =
             [\<lparr> cName = ''build'', cAliases = [''bundle'', ''b''],
                cDescription = ''Run webpack (default command, can be omitted).'',
                cUsage = Some ''[entries...] [options]'', cPkg = ''webpack-cli'',
                cHidden = False, cIsDefault = False, cOptions = [] \<rparr>,
              \<lparr> cName = ''bench'', cAliases = [''b''], cDescription = [],
                cUsage = None, cPkg = ''bench-command'',
                cHidden = False, cIsDefault = False, cOptions = [] \<rparr>],
           forHelp = False \<rparr>"
  by (simp add: makeCommand_def alreadyLoaded_def emptyProgram_def buildCommandOptions_def
      benchCommandOptions_def allInstalled_def bind_def commanderName_def firstWord_def
      strTruthy_def orElse_def Let_def)

end
